theory Spec2Isabelle
  imports Complex_Main "HOL-Library.AList"
begin

section \<open>JavaScript strings, arrays and numbers\<close>

text \<open>
  A JavaScript string is modelled as a \<^typ>\<open>string\<close>: a list of code units below 256.
  The helpers below are the built-ins the sources call: \<open>split('\n')\<close>, \<open>join\<close>,
  \<open>trim\<close>, \<open>startsWith\<close>, \<open>endsWith\<close>, \<open>includes\<close>, \<open>toLowerCase\<close>, and the character
  classes \<open>\s\<close> and \<open>\w\<close> of regular expressions.
\<close>

abbreviation NL :: char where "NL \<equiv> CHR 0x0A"
abbreviation SP :: char where "SP \<equiv> CHR 0x20"
abbreviation TAB :: char where "TAB \<equiv> CHR 0x09"

definition is_space :: "char \<Rightarrow> bool" where
  "is_space c = (c = SP \<or> c = TAB \<or> c = NL \<or> c = CHR 0x0B \<or> c = CHR 0x0C \<or> c = CHR 0x0D \<or> c = CHR 0xA0)"

definition is_upper :: "char \<Rightarrow> bool" where
  "is_upper c = (65 \<le> (of_char c :: nat) \<and> (of_char c :: nat) \<le> 90)"

definition is_lower :: "char \<Rightarrow> bool" where
  "is_lower c = (97 \<le> (of_char c :: nat) \<and> (of_char c :: nat) \<le> 122)"

definition is_digit :: "char \<Rightarrow> bool" where
  "is_digit c = (48 \<le> (of_char c :: nat) \<and> (of_char c :: nat) \<le> 57)"

definition is_word :: "char \<Rightarrow> bool" where
  "is_word c = (is_upper c \<or> is_lower c \<or> is_digit c \<or> c = CHR ''_'')"

text \<open>\<open>toLowerCase\<close> on one code unit: an ASCII capital gets bit 5 set.\<close>

definition lower :: "char \<Rightarrow> char" where
  "lower c = (if is_upper c
     then (case c of Char b0 b1 b2 b3 b4 b5 b6 b7 \<Rightarrow> Char b0 b1 b2 b3 b4 True b6 b7)
     else c)"

definition toLowerCase :: "string \<Rightarrow> string" where
  "toLowerCase s = map lower s"

text \<open>\<open>s.split(c)\<close> for a one-character separator: never the empty array.\<close>

fun split_on :: "char \<Rightarrow> string \<Rightarrow> string list" where
  "split_on c [] = [[]]"
| "split_on c (x # xs) =
     (if x = c then [] # split_on c xs
      else (case split_on c xs of [] \<Rightarrow> [[x]] | l # ls \<Rightarrow> (x # l) # ls))"

fun join :: "string \<Rightarrow> string list \<Rightarrow> string" where
  "join sep [] = []"
| "join sep [x] = x"
| "join sep (x # y # ys) = x @ sep @ join sep (y # ys)"

definition trim :: "string \<Rightarrow> string" where
  "trim s = rev (dropWhile is_space (rev (dropWhile is_space s)))"

definition startsWith :: "string \<Rightarrow> string \<Rightarrow> bool" where
  "startsWith s p = (take (length p) s = p)"

definition endsWith :: "string \<Rightarrow> string \<Rightarrow> bool" where
  "endsWith s p = (length p \<le> length s \<and> drop (length s - length p) s = p)"

fun str_includes :: "string \<Rightarrow> string \<Rightarrow> bool" where
  "str_includes [] p = (p = [])"
| "str_includes (c # cs) p = (startsWith (c # cs) p \<or> str_includes cs p)"

text \<open>
  \<open>Array.prototype.sort(cmp)\<close> is a stable sort (ECMAScript 2019): for a consistent
  comparator its result is the one of this insertion sort, which puts \<open>x\<close> before the
  first \<open>y\<close> with \<open>cmp x y \<le> 0\<close>.
\<close>

fun insert_by :: "('a \<Rightarrow> 'a \<Rightarrow> 'b::{zero,linorder}) \<Rightarrow> 'a \<Rightarrow> 'a list \<Rightarrow> 'a list" where
  "insert_by cmp x [] = [x]"
| "insert_by cmp x (y # ys) = (if cmp x y \<le> 0 then x # y # ys else y # insert_by cmp x ys)"

definition js_sort :: "('a \<Rightarrow> 'a \<Rightarrow> 'b::{zero,linorder}) \<Rightarrow> 'a list \<Rightarrow> 'a list" where
  "js_sort cmp xs = foldr (insert_by cmp) xs []"

text \<open>
  A JavaScript number that may be the result of a division: \<open>0 / 0\<close> is \<open>NaN\<close> and
  \<open>x / 0\<close> is an infinity.
\<close>

datatype jsnum = Num real | NaN | PosInf | NegInf

definition js_div :: "real \<Rightarrow> real \<Rightarrow> jsnum" where
  "js_div a b = (if b \<noteq> 0 then Num (a / b) else if a = 0 then NaN else if 0 < a then PosInf else NegInf)"

fun js_times :: "jsnum \<Rightarrow> real \<Rightarrow> jsnum" where
  "js_times (Num x) k = Num (x * k)"
| "js_times NaN k = NaN"
| "js_times PosInf k = (if 0 < k then PosInf else if k = 0 then NaN else NegInf)"
| "js_times NegInf k = (if 0 < k then NegInf else if k = 0 then NaN else PosInf)"

fun is_number :: "jsnum \<Rightarrow> bool" where
  "is_number (Num x) = True"
| "is_number _ = False"

section \<open>ContextOptimizer: token estimation and sections\<close>

text \<open>
  \<open>content.split(/[\s\n]+/)\<close>: the pieces between maximal runs of whitespace, with an
  empty first (last) piece when the content starts (ends) with whitespace. The second
  argument says whether the previous character was whitespace.
\<close>

fun split_ws_from :: "string \<Rightarrow> bool \<Rightarrow> string \<Rightarrow> string list" where
  "split_ws_from cur sep [] = [cur]"
| "split_ws_from cur sep (c # cs) =
     (if is_space c then (if sep then split_ws_from cur True cs else cur # split_ws_from [] True cs)
      else split_ws_from (cur @ [c]) False cs)"

definition split_ws :: "string \<Rightarrow> string list" where
  "split_ws content = split_ws_from [] False content"

text \<open>\<open>/[_${}()[\]<>]/.test(word) || /^[A-Z_]+$/.test(word)\<close>\<close>

definition isCodeToken :: "string \<Rightarrow> bool" where
  "isCodeToken word =
     (list_ex (\<lambda>c. c \<in> set ''_${}()[]<>'') word
      \<or> (word \<noteq> [] \<and> list_all (\<lambda>c. is_upper c \<or> c = CHR ''_'') word))"

text \<open>The characters of \<open>/[.,;:!?()[\]{}"'`]/\<close>.\<close>

definition is_punctuation :: "char \<Rightarrow> bool" where
  "is_punctuation c = (c \<in> set ''.,;:!?()[]{}'' \<or> c = CHR 0x22 \<or> c = CHR 0x27 \<or> c = CHR 0x60)"

definition AVERAGE_CHARS_PER_TOKEN :: nat where
  "AVERAGE_CHARS_PER_TOKEN = 4"

definition DEFAULT_MAX_TOKENS :: int where
  "DEFAULT_MAX_TOKENS = 8000"

text \<open>\<open>Math.ceil(a / b)\<close> on naturals.\<close>

definition ceil_div :: "nat \<Rightarrow> nat \<Rightarrow> nat" where
  "ceil_div a b = (a + b - 1) div b"

definition wordTokens :: "string \<Rightarrow> nat" where
  "wordTokens word =
     (if isCodeToken word then ceil_div (length word) 3
      else if length word \<le> 4 then 1
      else ceil_div (length word) AVERAGE_CHARS_PER_TOKEN)"

text \<open>
  \<open>estimateTokenCount\<close>: the loop over the words skips the empty ones; the punctuation
  adds \<open>Math.ceil(punctuationCount * 0.3)\<close>, which is \<open>\<lceil>3 * n / 10\<rceil>\<close> (the rounding of
  the double \<open>0.3\<close> never reaches the next integer).
\<close>

definition estimateTokenCount :: "string \<Rightarrow> nat" where
  "estimateTokenCount content =
     (let tokenCount = foldl (\<lambda>tokenCount word.
            if word = [] then tokenCount else tokenCount + wordTokens word) 0 (split_ws content);
          punctuationCount = length (filter is_punctuation content)
      in tokenCount + ceil_div (3 * punctuationCount) 10)"

text \<open>The number of leading \<open>#\<close> of a line, for \<open>/^#{1,n}\s/\<close>.\<close>

definition header_upto :: "nat \<Rightarrow> string \<Rightarrow> bool" where
  "header_upto n s =
     (let k = length (takeWhile (\<lambda>c. c = CHR ''#'') s)
      in 1 \<le> k \<and> k \<le> n \<and> (case drop k s of [] \<Rightarrow> False | c # _ \<Rightarrow> is_space c))"

text \<open>\<open>/^c{3,}$/\<close>: the whole string is three or more \<open>c\<close>.\<close>

definition rule_of :: "char \<Rightarrow> string \<Rightarrow> bool" where
  "rule_of c s = (3 \<le> length s \<and> list_all (\<lambda>x. x = c) s)"

definition isSectionMarker :: "string \<Rightarrow> bool" where
  "isSectionMarker line = (header_upto 6 line \<or> rule_of CHR ''='' line \<or> rule_of CHR ''-'' line)"

text \<open>\<open>content.includes('```') || /^\s{4,}/.test(content)\<close>\<close>

definition isCodeBlock :: "string \<Rightarrow> bool" where
  "isCodeBlock content =
     (str_includes content ''```'' \<or> (4 \<le> length content \<and> list_all is_space (take 4 content)))"

text \<open>\<open>/^(\s*\/\/|\s*\/\*|\s*#)/\<close>\<close>

definition isComment :: "string \<Rightarrow> bool" where
  "isComment content =
     (let r = dropWhile is_space content
      in startsWith r ''//'' \<or> startsWith r [CHR ''/'', CHR ''*''] \<or> startsWith r ''#'')"

text \<open>\<open>/^(\s*\*\s|#{1,6}\s|>\s)/\<close>\<close>

definition then_space :: "char \<Rightarrow> string \<Rightarrow> bool" where
  "then_space c s = (case s of x # y # _ \<Rightarrow> x = c \<and> is_space y | _ \<Rightarrow> False)"

definition isDocumentation :: "string \<Rightarrow> bool" where
  "isDocumentation content =
     (then_space CHR ''*'' (dropWhile is_space content)
      \<or> header_upto 6 content \<or> then_space CHR ''>'' content)"

text \<open>
  \<open>splitIntoSections\<close>: the loop over the lines keeps the sections pushed so far, the
  current section and whether the line is inside a fenced code block.
\<close>

record split_state =
  st_sections :: "string list"
  st_current :: string
  st_inCode :: bool

definition push_section :: "string list \<Rightarrow> string \<Rightarrow> string list" where
  "push_section sections cur = (if trim cur \<noteq> [] then sections @ [trim cur] else sections)"

definition split_step :: "split_state \<Rightarrow> string \<Rightarrow> split_state" where
  "split_step st line =
     (let inCodeBlock = (if startsWith line ''```'' then \<not> st_inCode st else st_inCode st)
      in if \<not> inCodeBlock \<and> isSectionMarker line
         then \<lparr>st_sections = push_section (st_sections st) (st_current st),
               st_current = line, st_inCode = inCodeBlock\<rparr>
         else \<lparr>st_sections = st_sections st,
               st_current = st_current st @ (if st_current st \<noteq> [] then [NL] else []) @ line,
               st_inCode = inCodeBlock\<rparr>)"

definition splitIntoSections :: "string \<Rightarrow> string list" where
  "splitIntoSections content =
     (let st = foldl split_step \<lparr>st_sections = [], st_current = [], st_inCode = False\<rparr>
                 (split_on NL content)
      in push_section (st_sections st) (st_current st))"

section \<open>Regular expressions of the sources\<close>

text \<open>
  The search patterns of the optimizer are sequences of literals, character classes,
  greedy repetitions \<open>c{lo,}\<close>, one capturing group \<open>(c+)\<close> and the word boundary \<open>\b\<close>;
  a pattern is a list of alternatives. \<open>rx_match\<close> follows the backtracking order of the
  JavaScript matcher (longest repetition first) and returns the capture and the rest of
  the input after the match; \<open>prev\<close> is the character before the current position.
\<close>

datatype cls = Space | WordC | AnyC

fun in_cls :: "cls \<Rightarrow> char \<Rightarrow> bool" where
  "in_cls Space c = is_space c"
| "in_cls WordC c = is_word c"
| "in_cls AnyC c = (c \<noteq> NL \<and> c \<noteq> CHR 0x0D)"

datatype item = Lit string | One cls | Rep nat cls | Cap cls | WordB

fun first_some :: "('a \<Rightarrow> 'b option) \<Rightarrow> 'a list \<Rightarrow> 'b option" where
  "first_some f [] = None"
| "first_some f (k # ks) = (case f k of Some r \<Rightarrow> Some r | None \<Rightarrow> first_some f ks)"

definition lit_eq :: "bool \<Rightarrow> string \<Rightarrow> string \<Rightarrow> bool" where
  "lit_eq ci a b = (if ci then toLowerCase a = toLowerCase b else a = b)"

definition last_of :: "char option \<Rightarrow> string \<Rightarrow> char option" where
  "last_of prev consumed = (if consumed = [] then prev else Some (last consumed))"

definition word_at :: "char option \<Rightarrow> bool" where
  "word_at c = (case c of None \<Rightarrow> False | Some x \<Rightarrow> is_word x)"

definition next_char :: "string \<Rightarrow> char option" where
  "next_char s = (case s of [] \<Rightarrow> None | c # _ \<Rightarrow> Some c)"

fun rx_match :: "bool \<Rightarrow> item list \<Rightarrow> char option \<Rightarrow> string \<Rightarrow> string option
    \<Rightarrow> (string option \<times> string) option" where
  "rx_match ci [] prev s cap = Some (cap, s)"
| "rx_match ci (Lit l # its) prev s cap =
     (if length l \<le> length s \<and> lit_eq ci (take (length l) s) l
      then rx_match ci its (last_of prev (take (length l) s)) (drop (length l) s) cap
      else None)"
| "rx_match ci (One c # its) prev s cap =
     (case s of [] \<Rightarrow> None
      | x # xs \<Rightarrow> if in_cls c x then rx_match ci its (Some x) xs cap else None)"
| "rx_match ci (Rep lo c # its) prev s cap =
     first_some (\<lambda>k. rx_match ci its (last_of prev (take k s)) (drop k s) cap)
       (rev [lo ..< Suc (length (takeWhile (in_cls c) s))])"
| "rx_match ci (Cap c # its) prev s cap =
     first_some (\<lambda>k. rx_match ci its (last_of prev (take k s)) (drop k s) (Some (take k s)))
       (rev [1 ..< Suc (length (takeWhile (in_cls c) s))])"
| "rx_match ci (WordB # its) prev s cap =
     (if word_at prev \<noteq> word_at (next_char s) then rx_match ci its prev s cap else None)"

text \<open>The leftmost match: at each position the alternatives in their order.\<close>

fun rx_search :: "bool \<Rightarrow> item list list \<Rightarrow> char option \<Rightarrow> string
    \<Rightarrow> (string option \<times> string) option" where
  "rx_search ci alts prev [] = first_some (\<lambda>alt. rx_match ci alt prev [] None) alts"
| "rx_search ci alts prev (c # cs) =
     (case first_some (\<lambda>alt. rx_match ci alt prev (c # cs) None) alts of
        Some r \<Rightarrow> Some r
      | None \<Rightarrow> rx_search ci alts (Some c) cs)"

text \<open>\<open>regex.test(s)\<close>, and \<open>s.match(regex)[1]\<close> when there is a match.\<close>

definition rx_test :: "bool \<Rightarrow> item list list \<Rightarrow> string \<Rightarrow> bool" where
  "rx_test ci alts s = (rx_search ci alts None s \<noteq> None)"

definition rx_group :: "bool \<Rightarrow> item list list \<Rightarrow> string \<Rightarrow> string option" where
  "rx_group ci alts s = (case rx_search ci alts None s of None \<Rightarrow> None | Some (cap, _) \<Rightarrow> cap)"

section \<open>ContextOptimizer: content analysis\<close>



definition detectLanguage :: "string \<Rightarrow> string" where
  "detectLanguage content =
     (if rx_test False [[Lit ''```'', Cap WordC]] content
      then (case rx_group False [[Lit ''```'', Cap WordC]] content of
              Some l \<Rightarrow> l | None \<Rightarrow> ''unknown'')
      else if rx_test False
          [[WordB, Lit ''import'', One Space, Rep 0 AnyC, Lit ''from'', One Space],
           [Lit ''export'', One Space],
           [Lit ''const'', One Space, Rep 0 AnyC, Lit ''='', One Space, Rep 0 AnyC, Lit ''require'']]
          content then ''javascript''
      else if rx_test False
          [[WordB, Lit ''interface'', One Space],
           [Lit ''type'', One Space, Rep 0 AnyC, Lit ''=''],
           [Lit '':'', Rep 0 Space, Lit ''string''],
           [Lit '':'', Rep 0 Space, Lit ''number''],
           [Lit '':'', Rep 0 Space, Lit ''boolean'']]
          content then ''typescript''
      else if rx_test False
          [[WordB, Lit ''def'', One Space],
           [Lit ''import'', One Space, Rep 0 AnyC, Lit [NL]],
           [Lit ''from'', One Space, Rep 0 AnyC, Lit ''import'']]
          content then ''python''
      else if rx_test False
          [[WordB, Lit ''package'', One Space],
           [Lit ''func'', One Space],
           [Lit ''var'', One Space, Rep 0 AnyC, Lit ''string'']]
          content then ''go''
      else ''unknown'')"

text \<open>The patterns of \<open>extractFunctionName\<close>, tried in this order.\<close>

definition functionPatterns :: "item list list" where
  "functionPatterns =
     [[Lit ''function'', Rep 1 Space, Cap WordC],
      [Lit ''const'', Rep 1 Space, Cap WordC, Rep 0 Space, Lit ''=''],
      [Lit ''class'', Rep 1 Space, Cap WordC],
      [Lit ''def'', Rep 1 Space, Cap WordC],
      [Lit ''func'', Rep 1 Space, Cap WordC]]"

definition extractFunctionName :: "string \<Rightarrow> string option" where
  "extractFunctionName content = first_some (\<lambda>pattern. rx_group False [pattern] content) functionPatterns"

definition calculateSectionImportance :: "string \<Rightarrow> int" where
  "calculateSectionImportance section =
     (if header_upto 3 section then 10 else 0)
     + (if isCodeBlock section then 8 else 0)
     + (if rx_test True [[Lit ''export'', Rep 1 Space, Lit ''interface''],
                         [Lit ''export'', Rep 1 Space, Lit ''class''],
                         [Lit ''export'', Rep 1 Space, Lit ''function''],
                         [Lit ''export'', Rep 1 Space, Lit ''const'']] section then 7 else 0)
     + (if rx_test True [[Lit ''error''], [Lit ''exception''], [Lit ''throw''], [Lit ''catch'']] section
        then 5 else 0)
     + (if isDocumentation section then 3 else 0)
     - (if 500 < estimateTokenCount section then 2 else 0)"

definition calculateRelevanceScore :: "string \<Rightarrow> int" where
  "calculateRelevanceScore section =
     max 0 (calculateSectionImportance section
       + (if rx_test True [[Lit ''main''], [Lit ''primary''], [Lit ''core''], [Lit ''key'']] section
          then 5 else 0)
       + (if rx_test True [[Lit ''public''], [Lit ''export''], [Lit ''api'']] section then 4 else 0)
       - (if rx_test True [[Lit ''test''], [Lit ''spec''], [Lit ''mock'']] section then 3 else 0)
       - (if rx_test True [[Lit ''example''], [Lit ''sample''], [Lit ''demo'']] section then 2 else 0))"

definition prioritizeSections :: "string list \<Rightarrow> string list" where
  "prioritizeSections sections =
     js_sort (\<lambda>a b. calculateSectionImportance b - calculateSectionImportance a) sections"

section \<open>ContextOptimizer: the three optimizations\<close>

text \<open>\<open>result += (result ? '\n\n' : '') + piece\<close>\<close>

definition append_piece :: "string \<Rightarrow> string \<Rightarrow> string" where
  "append_piece result piece = result @ (if result \<noteq> [] then [NL, NL] else []) @ piece"

subsection \<open>summarize\<close>

text \<open>
  \<open>summarizeSection(section, veryShort)\<close>. The lines are the ones with a character that is
  not whitespace. \<open>lines[0]?.substring(0, 100) + '...'\<close> is \<open>undefined...\<close> when there is no
  line.
\<close>

definition nonblank_lines :: "string \<Rightarrow> string list" where
  "nonblank_lines section = filter (\<lambda>line. trim line \<noteq> []) (split_on NL section)"

text \<open>The loop that keeps the section markers and the first lines, with its \<open>lineCount\<close>.\<close>

fun keep_lines :: "nat \<Rightarrow> string list \<Rightarrow> string list" where
  "keep_lines lineCount [] = []"
| "keep_lines lineCount (line # rest) =
     (if isSectionMarker line \<or> lineCount < 3 then line # keep_lines (lineCount + 1) rest
      else keep_lines lineCount rest)"

definition summarizeSection :: "string \<Rightarrow> bool \<Rightarrow> string" where
  "summarizeSection section veryShort =
     (let lines = nonblank_lines section in
      if veryShort then
        (if isCodeBlock section then
           (let firstLine = (case filter (\<lambda>line. \<not> startsWith line ''```'') lines of
                               [] \<Rightarrow> [] | l # _ \<Rightarrow> l)
            in ''[Code block: '' @ take 50 firstLine @ ''...]'')
         else (case lines of [] \<Rightarrow> ''undefined'' | l # _ \<Rightarrow> take 100 l) @ ''...'')
      else if isCodeBlock section then
        ''['' @ detectLanguage section @ '' code''
          @ (case extractFunctionName section of
               None \<Rightarrow> [] | Some functionName \<Rightarrow>
                 (if functionName \<noteq> [] then '': '' @ functionName else []))
          @ '']''
      else join [NL] (keep_lines 0 lines))"

text \<open>
  The loop of \<open>summarizeContent\<close> over the prioritized sections: \<open>break\<close> ends it at the
  first summary that does not fit.
\<close>

fun summarize_loop :: "int \<Rightarrow> string list \<Rightarrow> string \<Rightarrow> nat \<Rightarrow> string" where
  "summarize_loop maxTokens [] result currentTokens = result"
| "summarize_loop maxTokens (section # rest) result currentTokens =
     (let summary = summarizeSection section False;
          summaryTokens = estimateTokenCount summary
      in if int currentTokens + int summaryTokens > maxTokens then
           (let shorterSummary = summarizeSection section True;
                shorterTokens = estimateTokenCount shorterSummary
            in if int currentTokens + int shorterTokens \<le> maxTokens
               then append_piece result shorterSummary else result)
         else summarize_loop maxTokens rest (append_piece result summary)
                (currentTokens + summaryTokens))"

definition summarizeContent :: "string \<Rightarrow> int \<Rightarrow> string" where
  "summarizeContent content maxTokens =
     summarize_loop maxTokens (prioritizeSections (splitIntoSections content)) [] 0"

subsection \<open>selective\<close>

record scored_section =
  sc_content :: string
  sc_score :: int
  sc_tokens :: nat

definition scoreSection :: "string \<Rightarrow> scored_section" where
  "scoreSection section = \<lparr>sc_content = section, sc_score = calculateRelevanceScore section,
     sc_tokens = estimateTokenCount section\<rparr>"

text \<open>The body of the loop over the sorted sections: \<open>continue\<close> skips one that does not fit.\<close>

definition selective_step :: "int \<Rightarrow> string \<times> nat \<Rightarrow> scored_section \<Rightarrow> string \<times> nat" where
  "selective_step maxTokens acc s =
     (case acc of (result, currentTokens) \<Rightarrow>
        if int currentTokens + int (sc_tokens s) > maxTokens then (result, currentTokens)
        else (append_piece result (sc_content s), currentTokens + sc_tokens s))"

text \<open>The sort and the loop of \<open>selectiveOptimization\<close>, on the scored sections.\<close>

definition selectivePack :: "int \<Rightarrow> scored_section list \<Rightarrow> string \<times> nat" where
  "selectivePack maxTokens scored =
     foldl (selective_step maxTokens) ([], 0) (js_sort (\<lambda>a b. sc_score b - sc_score a) scored)"

definition selectiveOptimization :: "string \<Rightarrow> int \<Rightarrow> string" where
  "selectiveOptimization content maxTokens =
     fst (selectivePack maxTokens (map scoreSection (splitIntoSections content)))"

subsection \<open>compress\<close>

text \<open>\<open>replace(/\n{3,}/g, '\n\n')\<close>: a maximal run of three or more newlines becomes two.\<close>

function collapse_newlines :: "string \<Rightarrow> string" where
  "collapse_newlines [] = []"
| "collapse_newlines (c # cs) =
     (if c = NL then
        (let run = takeWhile (\<lambda>x. x = NL) (c # cs)
         in (if 3 \<le> length run then [NL, NL] else run)
            @ collapse_newlines (dropWhile (\<lambda>x. x = NL) cs))
      else c # collapse_newlines cs)"
  by pat_completeness auto
termination
  by (relation "measure length") (auto simp: length_dropWhile_le less_Suc_eq_le)

text \<open>\<open>replace(/[ \t]+/g, ' ')\<close>: a maximal run of spaces and tabs becomes one space.\<close>

definition is_blank :: "char \<Rightarrow> bool" where
  "is_blank c = (c = SP \<or> c = TAB)"

function collapse_spaces :: "string \<Rightarrow> string" where
  "collapse_spaces [] = []"
| "collapse_spaces (c # cs) =
     (if is_blank c then SP # collapse_spaces (dropWhile is_blank cs)
      else c # collapse_spaces cs)"
  by pat_completeness auto
termination
  by (relation "measure length") (auto simp: length_dropWhile_le less_Suc_eq_le)

text \<open>\<open>Array.from(new Set(lines))\<close>: a \<open>Set\<close> keeps the first insertion of each value.\<close>

definition set_add :: "'a list \<Rightarrow> 'a \<Rightarrow> 'a list" where
  "set_add seen x = (if x \<in> set seen then seen else seen @ [x])"

definition unique :: "'a list \<Rightarrow> 'a list" where
  "unique xs = foldl set_add [] xs"

text \<open>The first occurrence of \<open>p\<close> in \<open>s\<close>: what stands before it and after it.\<close>

fun find_sub :: "string \<Rightarrow> string \<Rightarrow> (string \<times> string) option" where
  "find_sub [] p = (if p = [] then Some ([], []) else None)"
| "find_sub (c # cs) p =
     (if startsWith (c # cs) p then Some ([], drop (length p) (c # cs))
      else (case find_sub cs p of None \<Rightarrow> None | Some (a, b) \<Rightarrow> Some (c # a, b)))"

text \<open>
  \<open>s.replace(/open[\s\S]*?close/g, f)\<close>: the matches are found from left to right, each
  from the first \<open>open\<close> to the first \<open>close\<close> after it; without a \<open>close\<close> nothing more
  matches.
\<close>

function replace_between :: "string \<Rightarrow> string \<Rightarrow> (string \<Rightarrow> string) \<Rightarrow> string \<Rightarrow> string" where
  "replace_between opn cls f s =
     (if opn = [] then s else
      case find_sub s opn of None \<Rightarrow> s
      | Some (pre, rest) \<Rightarrow>
          (case find_sub rest cls of None \<Rightarrow> s
           | Some (body, rest') \<Rightarrow> pre @ f (opn @ body @ cls) @ replace_between opn cls f rest'))"
  by pat_completeness auto
termination
proof (relation "measure (\<lambda>(opn, cls, f, s). length s)", goal_cases)
  case 1
  show ?case by simp
next
  case (2 opn cls f s x2 pre rest x2a body rest')
  have len: "length a + length p + length b = length t" if "find_sub t p = Some (a, b)" for t p a b
    using that
  proof (induction t arbitrary: a)
    case Nil
    then show ?case by (simp split: if_splits)
  next
    case (Cons c cs)
    show ?case
    proof (cases "startsWith (c # cs) p")
      case True
      then have "length p \<le> length (c # cs)"
        unfolding startsWith_def by (metis length_take min.cobounded1)
      with True Cons.prems show ?thesis by auto
    next
      case False
      with Cons.prems obtain a' where "find_sub cs p = Some (a', b)" and "a = c # a'"
        by (auto split: option.splits)
      with Cons.IH [of a'] show ?thesis by simp
    qed
  qed
  from 2 have "length pre + length opn + length rest = length s"
    and "length body + length cls + length rest' = length rest"
    by (auto dest: len)
  with 2 show ?case by (cases opn) auto
qed

declare replace_between.simps [simp del]

text \<open>The callbacks of the two \<open>replace\<close> calls on fenced code blocks and block comments.\<close>

definition truncate_fence :: "string \<Rightarrow> string" where
  "truncate_fence m =
     (let lines = split_on NL m in
      if 20 < length lines
      then join [NL] (take 10 lines) @ [NL] @ ''// ... truncated ...'' @ [NL]
           @ join [NL] (drop (length lines - 5) lines)
      else m)"

definition comment_placeholder :: string where
  "comment_placeholder = [CHR ''/'', CHR ''*''] @ '' ... detailed comment removed ... '' @ [CHR ''*'', CHR ''/'']"

definition remove_comment :: "string \<Rightarrow> string" where
  "remove_comment m = (if 200 < length m then comment_placeholder else m)"

text \<open>The text after the whitespace and duplicate-line steps of \<open>compressContent\<close>.\<close>

definition compress_lines :: "string \<Rightarrow> string" where
  "compress_lines content =
     join [NL] (unique (split_on NL (collapse_spaces (collapse_newlines content))))"

definition compressContent :: "string \<Rightarrow> string" where
  "compressContent content =
     replace_between [CHR ''/'', CHR ''*''] [CHR ''*'', CHR ''/''] remove_comment
       (replace_between ''```'' ''```'' truncate_fence (compress_lines content))"

section \<open>ContextOptimizer: chunking\<close>














text \<open>\<open>maxChunkSize || 2000\<close>: an absent size and the size 0 give the default.\<close>

definition or_default :: "int option \<Rightarrow> int \<Rightarrow> int" where
  "or_default v d = (case v of None \<Rightarrow> d | Some n \<Rightarrow> if n = 0 then d else n)"


section \<open>ContextOptimizer: token information and optimizeContext\<close>

record distribution =
  d_code :: nat
  d_documentation :: nat
  d_comments :: nat
  d_whitespace :: nat
  d_other :: nat

definition classify :: "distribution \<Rightarrow> string \<Rightarrow> distribution" where
  "classify d section =
     (let sectionTokens = estimateTokenCount section in
      if isCodeBlock section then d\<lparr>d_code := d_code d + sectionTokens\<rparr>
      else if isComment section then d\<lparr>d_comments := d_comments d + sectionTokens\<rparr>
      else if isDocumentation section then d\<lparr>d_documentation := d_documentation d + sectionTokens\<rparr>
      else if length (trim section) = 0 then d\<lparr>d_whitespace := d_whitespace d + sectionTokens\<rparr>
      else d\<lparr>d_other := d_other d + sectionTokens\<rparr>)"

text \<open>\<open>Object.entries(distribution)\<close>, in the order the keys were created.\<close>

definition distributionEntries :: "distribution \<Rightarrow> (string \<times> nat) list" where
  "distributionEntries d = [(''code'', d_code d), (''documentation'', d_documentation d),
     (''comments'', d_comments d), (''whitespace'', d_whitespace d), (''other'', d_other d)]"

record TokenInfo =
  ti_totalTokens :: nat
  ti_breakdown :: "(string \<times> jsnum) list"
  ti_estimatedCost :: real
  ti_withinLimit :: bool

definition estimateCost :: "nat \<Rightarrow> real" where
  "estimateCost tokens = (real tokens / 1000) * 0.01"

definition getTokenInfo :: "string \<Rightarrow> TokenInfo" where
  "getTokenInfo content =
     (let tokens = estimateTokenCount content;
          sections = splitIntoSections content;
          distribution = foldl classify
            \<lparr>d_code = 0, d_documentation = 0, d_comments = 0, d_whitespace = 0, d_other = 0\<rparr> sections;
          breakdown = map (\<lambda>(key, v). (key, js_times (js_div (real v) (real tokens)) 100))
            (distributionEntries distribution)
      in \<lparr>ti_totalTokens = tokens, ti_breakdown = breakdown,
          ti_estimatedCost = estimateCost tokens,
          ti_withinLimit = (int tokens \<le> DEFAULT_MAX_TOKENS)\<rparr>)"

datatype OptimizationStrategy = Summarize | Selective | Compress

record OptimizationResult =
  or_originalContent :: string
  or_optimizedContent :: string
  or_originalTokens :: nat
  or_optimizedTokens :: nat
  or_reduction :: real
  or_strategy :: OptimizationStrategy

definition optimizeContext :: "string \<Rightarrow> OptimizationStrategy \<Rightarrow> int option \<Rightarrow> OptimizationResult" where
  "optimizeContext content strategy maxTokens =
     (let originalTokens = estimateTokenCount content;
          targetTokens = or_default maxTokens DEFAULT_MAX_TOKENS;
          optimizedContent = (case strategy of
              Summarize \<Rightarrow> summarizeContent content targetTokens
            | Selective \<Rightarrow> selectiveOptimization content targetTokens
            | Compress \<Rightarrow> compressContent content);
          finalTokens = estimateTokenCount optimizedContent;
          tokensReduced = int originalTokens - int finalTokens
      in \<lparr>or_originalContent = content, or_optimizedContent = optimizedContent,
          or_originalTokens = originalTokens, or_optimizedTokens = finalTokens,
          or_reduction = (if 0 < tokensReduced
                          then (real_of_int tokensReduced / real originalTokens) * 100 else 0),
          or_strategy = strategy\<rparr>)"

section \<open>The collaborators of a run\<close>

text \<open>
  The file-system adapter, the Node \<open>path\<close> module, the clock and the regular-expression
  engine are not code of the repository: a run is given them as one record. A promise
  that rejects (or a call that throws) is the value \<open>None\<close>. The three \<open>matchesPattern\<close>
  methods compile a caller-supplied glob to a \<open>RegExp\<close> and test it; they are taken as
  they come, with \<open>None\<close> for a pattern the \<open>RegExp\<close> constructor refuses. The file system
  does not change during a run. The project analyzer is injected into the progressive
  strategy through its interface \<open>IProjectAnalyzer\<close>: the strategy is modelled for any
  analyzer, and \<open>analyzeProject\<close> is the answer of the one it is given. The two \<open>sort\<close>
  fields are the order the engine gives an array under a comparator that is not
  consistent.
\<close>

record Stats =
  stat_size :: nat
  stat_modifiedAt :: int
  stat_isDirectory :: bool

record ProjectInfo =
  pi_entryPoints :: "string list"
  pi_configFiles :: "string list"
  pi_docsDirs :: "string list"

record env =
  fs_readFile :: "string \<Rightarrow> string option"
  fs_listDirectory :: "string \<Rightarrow> string list option"
  fs_getStats :: "string \<Rightarrow> Stats option"
  fs_isFile :: "string \<Rightarrow> bool option"
  fs_isDirectory :: "string \<Rightarrow> bool option"
  fs_exists :: "string \<Rightarrow> bool option"
  fs_join :: "string \<Rightarrow> string \<Rightarrow> string"
  fs_relative :: "string \<Rightarrow> string \<Rightarrow> string"
  fs_basename :: "string \<Rightarrow> string"
  path_sep :: char
  path_basename :: "string \<Rightarrow> string"
  path_extname :: "string \<Rightarrow> string"
  path_parse_name :: "string \<Rightarrow> string"
  path_join :: "string \<Rightarrow> string \<Rightarrow> string"
  path_relative :: "string \<Rightarrow> string \<Rightarrow> string"
  date_now :: int
  count_matches :: "string \<Rightarrow> string \<Rightarrow> nat option"
  locale_compare :: "string \<Rightarrow> string \<Rightarrow> int"
  scorer_matchesPattern :: "string \<Rightarrow> string \<Rightarrow> bool option"
  focused_matchesPattern :: "string \<Rightarrow> string \<Rightarrow> bool option"
  breadth_matchesPattern :: "string \<Rightarrow> string \<Rightarrow> bool option"
  analyzeProject :: "string \<Rightarrow> ProjectInfo option"
  sort_configs :: "string list \<Rightarrow> string list"
  sort_entries :: "string list \<Rightarrow> string list"

datatype error = ConfigurationError | RegExpError | IOError

text \<open>
  \<open>patterns.some(p => matchesPattern(x, p))\<close>: the patterns are tried in their order up to
  the first match, and a pattern that throws ends the call.
\<close>

fun some_pattern :: "(string \<Rightarrow> bool option) \<Rightarrow> string list \<Rightarrow> bool option" where
  "some_pattern f [] = Some False"
| "some_pattern f (p # ps) =
     (case f p of None \<Rightarrow> None | Some True \<Rightarrow> Some True | Some False \<Rightarrow> some_pattern f ps)"

section \<open>RelevanceScorer\<close>

record RelevanceFactors =
  pathScore :: real
  nameScore :: real
  typeScore :: real
  depthScore :: real
  sizeScore :: real
  recencyScore :: real

record Weights =
  w_pathScore :: real
  w_nameScore :: real
  w_typeScore :: real
  w_depthScore :: real
  w_sizeScore :: real
  w_recencyScore :: real
  w_queryScore :: "real option"

record ScoringCriteria =
  c_query :: "string option"
  c_contextPath :: "string option"
  c_fileTypes :: "string list option"
  c_includePatterns :: "string list option"
  c_excludePatterns :: "string list option"
  c_threshold :: "real option"
  c_weights :: "Weights option"

record FileRelevance =
  fr_path :: string
  fr_score :: real
  fr_factors :: RelevanceFactors
  fr_reason :: string

definition keywordWeights :: "(string \<times> real) list" where
  "keywordWeights =
     [(''main'', 10), (''index'', 10), (''app'', 9), (''core'', 9),
      (''api'', 8), (''service'', 8), (''controller'', 8), (''model'', 8),
      (''interface'', 7), (''type'', 7), (''schema'', 7), (''config'', 7),
      (''util'', 5), (''helper'', 5), (''lib'', 5), (''common'', 5),
      (''component'', 5), (''module'', 5), (''route'', 5), (''middleware'', 5),
      (''test'', 2), (''spec'', 2), (''mock'', 2), (''example'', 2),
      (''demo'', 1), (''sample'', 1), (''backup'', 1), (''old'', 1),
      (''deprecated'', -5), (''legacy'', -5), (''temp'', -5), (''tmp'', -5),
      (''node_modules'', -10), (''dist'', -10), (''build'', -10), (''coverage'', -10)]"

text \<open>\<open>Math.max(0, Math.min(100, score))\<close>\<close>

definition clamp100 :: "real \<Rightarrow> real" where
  "clamp100 score = max 0 (min 100 score)"

text \<open>The sum of the weights of the keywords a string includes.\<close>

definition keywordScore :: "string \<Rightarrow> real" where
  "keywordScore part =
     foldl (\<lambda>score (keyword, weight). if str_includes part keyword then score + weight else score)
       0 keywordWeights"

definition calculatePathScore :: "env \<Rightarrow> string \<Rightarrow> real" where
  "calculatePathScore e filePath =
     (let parts = split_on (path_sep e) (toLowerCase filePath);
          score = foldl (\<lambda>score part. score + keywordScore part) 50 parts;
          score = (if ''src'' \<in> set parts \<or> ''lib'' \<in> set parts then score + 10 else score);
          score = score - max 0 ((real (length parts) - 4) * 2)
      in clamp100 score)"

definition calculateNameScore :: "env \<Rightarrow> string \<Rightarrow> real" where
  "calculateNameScore e filename =
     (let nameLower = toLowerCase filename;
          nameWithoutExt = toLowerCase (path_parse_name e filename);
          score = (if nameWithoutExt \<in> set [''index'', ''main'', ''app'', ''server'', ''api'']
                   then 50 + 30 else 50);
          score = score + keywordScore nameLower;
          score = (if str_includes nameLower ''test'' \<or> str_includes nameLower ''spec''
                   then score - 20 else score);
          score = (if 50 < length filename then score - 10 else score)
      in clamp100 score)"

definition typeScores :: "(string \<times> real) list" where
  "typeScores =
     [(''.ts'', 90), (''.tsx'', 85), (''.js'', 80), (''.jsx'', 75), (''.py'', 80), (''.go'', 80),
      (''.rs'', 80), (''.java'', 75), (''.cs'', 75), (''.cpp'', 70), (''.c'', 70), (''.h'', 65),
      (''.hpp'', 65), (''.json'', 60), (''.yaml'', 60), (''.yml'', 60), (''.xml'', 55),
      (''.md'', 50), (''.txt'', 40), (''.log'', 20), (''.lock'', 10)]"

definition calculateTypeScore :: "env \<Rightarrow> string \<Rightarrow> real" where
  "calculateTypeScore e filePath =
     (case map_of typeScores (toLowerCase (path_extname e filePath)) of
        None \<Rightarrow> 30 | Some s \<Rightarrow> s)"

definition calculateDepthScore :: "env \<Rightarrow> string \<Rightarrow> string option \<Rightarrow> real" where
  "calculateDepthScore e filePath contextPath =
     (let depth = int (length (split_on (path_sep e) filePath)) in
      case (case contextPath of None \<Rightarrow> None | Some c \<Rightarrow> if c = [] then None else Some c) of
        Some c \<Rightarrow>
          (let relativeDepth = depth - int (length (split_on (path_sep e) c)) in
           if relativeDepth = 0 then 100
           else if relativeDepth = 1 then 90
           else if relativeDepth = 2 then 70
           else max 0 (100 - real_of_int relativeDepth * 10))
      | None \<Rightarrow>
          (if depth \<le> 3 then 90 else if depth \<le> 5 then 70 else if depth \<le> 7 then 50
           else max 0 (100 - real_of_int depth * 5)))"

definition calculateSizeScore :: "env \<Rightarrow> string \<Rightarrow> real" where
  "calculateSizeScore e filePath =
     (case fs_getStats e filePath of
        None \<Rightarrow> 50
      | Some stats \<Rightarrow>
          (let sizeKB = real (stat_size stats) / 1024 in
           if 1 \<le> sizeKB \<and> sizeKB \<le> 50 then 100
           else if 50 < sizeKB \<and> sizeKB \<le> 200 then 80
           else if sizeKB < 1 then 20
           else if 200 < sizeKB \<and> sizeKB \<le> 500 then 60
           else if 500 < sizeKB \<and> sizeKB \<le> 1000 then 40
           else 20))"

definition calculateRecencyScore :: "env \<Rightarrow> string \<Rightarrow> real" where
  "calculateRecencyScore e filePath =
     (case fs_getStats e filePath of
        None \<Rightarrow> 50
      | Some stats \<Rightarrow>
          (let age = date_now e - stat_modifiedAt stats;
               days = real_of_int age / (1000 * 60 * 60 * 24) in
           if days < 1 then 100 else if days < 7 then 90 else if days < 30 then 70
           else if days < 90 then 50 else if days < 365 then 30 else 10))"

definition calculateRelevance :: "env \<Rightarrow> string \<Rightarrow> string option \<Rightarrow> RelevanceFactors" where
  "calculateRelevance e filePath contextPath =
     \<lparr>pathScore = calculatePathScore e filePath,
      nameScore = calculateNameScore e (path_basename e filePath),
      typeScore = calculateTypeScore e filePath,
      depthScore = calculateDepthScore e filePath contextPath,
      sizeScore = calculateSizeScore e filePath,
      recencyScore = calculateRecencyScore e filePath\<rparr>"

text \<open>
  The loop of \<open>calculateQueryRelevance\<close> over the content: a term the \<open>RegExp\<close> constructor
  refuses throws inside the \<open>try\<close>, which keeps the score reached so far.
\<close>

fun contentScore :: "env \<Rightarrow> string \<Rightarrow> real \<Rightarrow> string list \<Rightarrow> real" where
  "contentScore e contentLower score [] = score"
| "contentScore e contentLower score (term # rest) =
     (case count_matches e term contentLower of
        None \<Rightarrow> score
      | Some occurrences \<Rightarrow>
          contentScore e contentLower (score + min (real occurrences * 2) 30) rest)"

definition calculateQueryRelevance :: "env \<Rightarrow> string \<Rightarrow> string \<Rightarrow> real" where
  "calculateQueryRelevance e filePath query =
     (let queryTerms = filter (\<lambda>t. 2 < length t) (split_ws (toLowerCase query));
          filename = toLowerCase (path_basename e filePath);
          score = foldl (\<lambda>score t. if str_includes filename t then score + 20 else score) 0 queryTerms;
          pathLower = toLowerCase filePath;
          score = foldl (\<lambda>score t. if str_includes pathLower t then score + 10 else score)
                    score queryTerms;
          score = (case fs_getStats e filePath of
                     None \<Rightarrow> score
                   | Some stats \<Rightarrow>
                       if stat_size stats < 100 * 1024 then
                         (case fs_readFile e filePath of
                            None \<Rightarrow> score
                          | Some content \<Rightarrow> contentScore e (toLowerCase content) score queryTerms)
                       else score)
      in min score 100)"

definition getDefaultWeights :: Weights where
  "getDefaultWeights = \<lparr>w_pathScore = 1.5, w_nameScore = 2.0, w_typeScore = 1.2,
     w_depthScore = 0.8, w_sizeScore = 0.5, w_recencyScore = 0.7, w_queryScore = Some 2.5\<rparr>"

text \<open>\<open>Object.entries(factors)\<close> with the phrase of each factor.\<close>

definition factorEntries :: "RelevanceFactors \<Rightarrow> (string \<times> real) list" where
  "factorEntries f =
     [(''important path location'', pathScore f), (''significant filename'', nameScore f),
      (''relevant file type'', typeScore f), (''good file depth'', depthScore f),
      (''optimal file size'', sizeScore f), (''recently modified'', recencyScore f)]"

definition generateReason :: "RelevanceFactors \<Rightarrow> real \<Rightarrow> string" where
  "generateReason factors totalScore =
     (let sorted = js_sort (\<lambda>a b. snd b - snd a) (factorEntries factors);
          reasons = map fst (filter (\<lambda>(phrase, score). 80 \<le> score) (take 3 sorted));
          reasons = (if reasons = [] then
                       (if 70 \<le> totalScore then [''generally relevant'']
                        else if 40 \<le> totalScore then [''moderately relevant'']
                        else [''low relevance''])
                     else reasons)
      in join '', '' reasons)"

text \<open>\<open>weights.queryScore || 2.0\<close>\<close>

definition queryWeight :: "Weights \<Rightarrow> real" where
  "queryWeight w = (case w_queryScore w of None \<Rightarrow> 2.0 | Some q \<Rightarrow> if q = 0 then 2.0 else q)"

definition scoreFile :: "env \<Rightarrow> string \<Rightarrow> ScoringCriteria \<Rightarrow> error + FileRelevance" where
  "scoreFile e filePath criteria =
     (let factors = calculateRelevance e filePath (c_contextPath criteria);
          weights = (case c_weights criteria of None \<Rightarrow> getDefaultWeights | Some w \<Rightarrow> w);
          score = pathScore factors * w_pathScore weights
                + nameScore factors * w_nameScore weights
                + typeScore factors * w_typeScore weights
                + depthScore factors * w_depthScore weights
                + sizeScore factors * w_sizeScore weights
                + recencyScore factors * w_recencyScore weights;
          score = (case c_query criteria of
                     None \<Rightarrow> score
                   | Some query \<Rightarrow>
                       if query = [] then score
                       else score + calculateQueryRelevance e filePath query * queryWeight weights);
          score = (case c_fileTypes criteria of
                     None \<Rightarrow> score
                   | Some fileTypes \<Rightarrow>
                       if fileTypes \<noteq> [] \<and> toLowerCase (path_extname e filePath) \<notin> set fileTypes
                       then score * 0.1 else score)
      in case (case c_includePatterns criteria of
                 None \<Rightarrow> Some score
               | Some patterns \<Rightarrow>
                   (case some_pattern (scorer_matchesPattern e filePath) patterns of
                      None \<Rightarrow> None
                    | Some matches \<Rightarrow> Some (if \<not> matches then score * 0.2 else score))) of
           None \<Rightarrow> Inl RegExpError
         | Some score \<Rightarrow>
             (case (case c_excludePatterns criteria of
                      None \<Rightarrow> Some score
                    | Some patterns \<Rightarrow>
                        (case some_pattern (scorer_matchesPattern e filePath) patterns of
                           None \<Rightarrow> None
                         | Some matches \<Rightarrow> Some (if matches then 0 else score))) of
                None \<Rightarrow> Inl RegExpError
              | Some score \<Rightarrow>
                  Inr \<lparr>fr_path = filePath, fr_score = clamp100 score, fr_factors = factors,
                       fr_reason = generateReason factors score\<rparr>))"

text \<open>\<open>Promise.all(files.map(...))\<close>: the results in the order of the files, or the rejection.\<close>

fun all_results :: "(error + 'a) list \<Rightarrow> error + 'a list" where
  "all_results [] = Inr []"
| "all_results (r # rs) =
     (case r of Inl err \<Rightarrow> Inl err
      | Inr x \<Rightarrow> (case all_results rs of Inl err \<Rightarrow> Inl err | Inr xs \<Rightarrow> Inr (x # xs)))"

definition scoreFiles :: "env \<Rightarrow> string list \<Rightarrow> ScoringCriteria \<Rightarrow> error + FileRelevance list" where
  "scoreFiles e files criteria =
     (case all_results (map (\<lambda>file. scoreFile e file criteria) files) of
        Inl err \<Rightarrow> Inl err
      | Inr scoredFiles \<Rightarrow>
          (let sorted = js_sort (\<lambda>a b. fr_score b - fr_score a) scoredFiles in
           Inr (case c_threshold criteria of
                  None \<Rightarrow> sorted
                | Some threshold \<Rightarrow>
                    if threshold = 0 then sorted
                    else filter (\<lambda>f. threshold \<le> fr_score f) sorted)))"

section \<open>Loading strategies: common parts\<close>

record LoadingOptions =
  o_maxTokens :: "int option"
  o_maxDepth :: "int option"
  o_fileTypes :: "string list option"
  o_includePatterns :: "string list option"
  o_excludePatterns :: "string list option"
  o_query :: "string option"

record FocusSummary =
  fsum_query :: "string option"
  fsum_patterns :: "string list option"
  fsum_filesFound :: nat
  fsum_filesLoaded :: nat
  fsum_averageScore :: jsnum

text \<open>
  The metadata of a run, per strategy: the analyzer's project info; the relevance
  recorded for each loaded file and the focus summary; the per-level statistics
  (level, files, tokens). The directory tree of the breadth-first strategy describes the
  project only and is left out.
\<close>

datatype metadata =
    ProgressiveMeta ProjectInfo
  | FocusedMeta "(string \<times> real \<times> string) list" FocusSummary
  | BreadthMeta "(nat \<times> nat \<times> nat) list"

text \<open>
  A \<open>Map<string, string>\<close> is an association list in insertion order; \<open>AList.update\<close> is
  \<open>Map.set\<close>: a key that is present keeps its place and gets the new value.
\<close>

record LoadedContext =
  lc_files :: "(string \<times> string) list"
  lc_metadata :: metadata
  lc_totalTokens :: nat
  lc_strategy :: string

text \<open>\<open>Math.ceil(content.length / 4)\<close>, the estimator of the three strategies.\<close>

definition estimateTokens :: "string \<Rightarrow> nat" where
  "estimateTokens content = ceil_div (length content) 4"

text \<open>\<open>!options.query\<close> and \<open>!options.includePatterns?.length\<close>.\<close>

definition no_query :: "string option \<Rightarrow> bool" where
  "no_query q = (case q of None \<Rightarrow> True | Some s \<Rightarrow> s = [])"

definition no_patterns :: "string list option \<Rightarrow> bool" where
  "no_patterns ps = (case ps of None \<Rightarrow> True | Some l \<Rightarrow> l = [])"

section \<open>FocusedLoadingStrategy\<close>

text \<open>
  The focused strategy keeps a log of the calls it makes to the file-system adapter and
  to the relevance scorer, in their order.
\<close>

datatype call = ReadFile string | ListDirectory string | GetStats string | ScoreFiles "string list"

record walk_state =
  ws_visited :: "string set"
  ws_files :: "string list"
  ws_log :: "call list"

definition focused_defaultExcludes :: "string list" where
  "focused_defaultExcludes =
     [''node_modules'', ''.git'', ''.svn'', ''.hg'', ''dist'', ''build'', ''coverage'', ''.cache'',
      ''.next'', ''.nuxt'', ''.turbo'', ''venv'', ''__pycache__'', ''.pytest_cache'', ''.mypy_cache'']"

definition focused_shouldExclude :: "env \<Rightarrow> LoadingOptions \<Rightarrow> string \<Rightarrow> string \<Rightarrow> bool option" where
  "focused_shouldExclude e options filename fullPath =
     (if filename \<in> set focused_defaultExcludes then Some True
      else case o_excludePatterns options of
             None \<Rightarrow> Some False
           | Some patterns \<Rightarrow> some_pattern (focused_matchesPattern e fullPath) patterns)"

definition focused_defaultTypes :: "string list" where
  "focused_defaultTypes =
     [''.ts'', ''.tsx'', ''.js'', ''.jsx'', ''.py'', ''.go'', ''.rs'', ''.java'',
      ''.json'', ''.yaml'', ''.yml'', ''.md'', ''.txt'']"

definition matchesFileType :: "LoadingOptions \<Rightarrow> string \<Rightarrow> bool" where
  "matchesFileType options filename =
     (case (case o_fileTypes options of None \<Rightarrow> None | Some ts \<Rightarrow> if ts = [] then None else Some ts) of
        None \<Rightarrow> list_ex (\<lambda>ext. endsWith filename ext) focused_defaultTypes
      | Some fileTypes \<Rightarrow>
          list_ex (\<lambda>type. if startsWith type ''.'' then endsWith filename type
                          else str_includes filename type) fileTypes)"

text \<open>
  The loop of \<open>walk\<close> over the entries of a directory, inside its \<open>try\<close>: a call that
  throws ends the loop. \<open>rec\<close> is the walk of a subdirectory.
\<close>

fun focused_entries :: "(string \<Rightarrow> walk_state \<Rightarrow> walk_state) \<Rightarrow> env \<Rightarrow> LoadingOptions
    \<Rightarrow> string \<Rightarrow> string \<Rightarrow> string list \<Rightarrow> walk_state \<Rightarrow> walk_state" where
  "focused_entries rec e options rootPath dir [] st = st"
| "focused_entries rec e options rootPath dir (entry # rest) st =
     (let fullPath = path_join e dir entry in
      case focused_shouldExclude e options entry fullPath of
        None \<Rightarrow> st
      | Some True \<Rightarrow> focused_entries rec e options rootPath dir rest st
      | Some False \<Rightarrow>
          (let st1 = st\<lparr>ws_log := ws_log st @ [GetStats fullPath]\<rparr> in
           case fs_getStats e fullPath of
             None \<Rightarrow> st1
           | Some stats \<Rightarrow>
               if stat_isDirectory stats
               then focused_entries rec e options rootPath dir rest (rec fullPath st1)
               else if matchesFileType options entry
               then focused_entries rec e options rootPath dir rest
                      (st1\<lparr>ws_files := ws_files st1 @ [path_relative e rootPath fullPath]\<rparr>)
               else focused_entries rec e options rootPath dir rest st1))"

function focused_walk :: "env \<Rightarrow> LoadingOptions \<Rightarrow> string \<Rightarrow> string \<Rightarrow> nat \<Rightarrow> walk_state
    \<Rightarrow> walk_state" where
  "focused_walk e options rootPath dir depth st =
     (if int depth > or_default (o_maxDepth options) 10 \<or> dir \<in> ws_visited st then st
      else
        (let st1 = st\<lparr>ws_visited := insert dir (ws_visited st),
                      ws_log := ws_log st @ [ListDirectory dir]\<rparr> in
         case fs_listDirectory e dir of
           None \<Rightarrow> st1
         | Some entries \<Rightarrow>
             focused_entries (\<lambda>p s. focused_walk e options rootPath p (depth + 1) s)
               e options rootPath dir entries st1))"
  by pat_completeness auto
termination
  by (relation "measure (\<lambda>(e, options, rootPath, dir, depth, st).
        nat (or_default (o_maxDepth options) 10 + 1 - int depth))") auto

declare focused_walk.simps [simp del]

definition findAllFiles :: "env \<Rightarrow> LoadingOptions \<Rightarrow> string \<Rightarrow> walk_state" where
  "findAllFiles e options rootPath =
     focused_walk e options rootPath rootPath 0 \<lparr>ws_visited = {}, ws_files = [], ws_log = []\<rparr>"

definition focusedCriteria :: "string \<Rightarrow> LoadingOptions \<Rightarrow> ScoringCriteria" where
  "focusedCriteria rootPath options =
     \<lparr>c_query = o_query options, c_contextPath = Some rootPath, c_fileTypes = o_fileTypes options,
      c_includePatterns = o_includePatterns options, c_excludePatterns = o_excludePatterns options,
      c_threshold = Some 30,
      c_weights = Some \<lparr>w_pathScore = 2.0, w_nameScore = 2.5, w_typeScore = 1.0,
        w_depthScore = 0.5, w_sizeScore = 0.3, w_recencyScore = 0.2, w_queryScore = Some 3.0\<rparr>\<rparr>"

text \<open>The inner loop of the boost: \<open>file.score *= 1.5\<close> for each pattern the path matches.\<close>

fun boost :: "env \<Rightarrow> FileRelevance \<Rightarrow> string list \<Rightarrow> error + FileRelevance" where
  "boost e file [] = Inr file"
| "boost e file (pattern # rest) =
     (case focused_matchesPattern e (fr_path file) pattern of
        None \<Rightarrow> Inl RegExpError
      | Some True \<Rightarrow>
          boost e (file\<lparr>fr_score := fr_score file * 1.5,
                        fr_reason := fr_reason file @ '', matches pattern: '' @ pattern\<rparr>) rest
      | Some False \<Rightarrow> boost e file rest)"

definition scoreFilesByFocus :: "env \<Rightarrow> string list \<Rightarrow> string \<Rightarrow> LoadingOptions
    \<Rightarrow> error + FileRelevance list" where
  "scoreFilesByFocus e files rootPath options =
     (case scoreFiles e files (focusedCriteria rootPath options) of
        Inl err \<Rightarrow> Inl err
      | Inr scoredFiles \<Rightarrow>
          (case (case o_includePatterns options of
                   None \<Rightarrow> Inr scoredFiles
                 | Some patterns \<Rightarrow> all_results (map (\<lambda>file. boost e file patterns) scoredFiles)) of
             Inl err \<Rightarrow> Inl err
           | Inr boosted \<Rightarrow>
               Inr (filter (\<lambda>f. 30 \<le> fr_score f)
                      (js_sort (\<lambda>a b. fr_score b - fr_score a) boosted))))"

record load_state =
  ld_files :: "(string \<times> string) list"
  ld_relevance :: "(string \<times> real \<times> string) list"
  ld_totalTokens :: nat
  ld_log :: "call list"

text \<open>The loop of \<open>loadContext\<close> over the scored files, with its \<open>break\<close>.\<close>

fun focused_load :: "env \<Rightarrow> string \<Rightarrow> int \<Rightarrow> FileRelevance list \<Rightarrow> load_state \<Rightarrow> load_state" where
  "focused_load e rootPath maxTokens [] st = st"
| "focused_load e rootPath maxTokens (f # rest) st =
     (if int (ld_totalTokens st) \<ge> maxTokens then st
      else
        (let fullPath = path_join e rootPath (fr_path f);
             st1 = st\<lparr>ld_log := ld_log st @ [ReadFile fullPath]\<rparr> in
         case fs_readFile e fullPath of
           None \<Rightarrow> focused_load e rootPath maxTokens rest st1
         | Some content \<Rightarrow>
             (let tokens = estimateTokens content in
              if int (ld_totalTokens st1) + int tokens \<le> maxTokens
              then focused_load e rootPath maxTokens rest
                     (st1\<lparr>ld_files := AList.update (fr_path f) content (ld_files st1),
                          ld_relevance := AList.update (fr_path f) (fr_score f, fr_reason f)
                                            (ld_relevance st1),
                          ld_totalTokens := ld_totalTokens st1 + tokens\<rparr>)
              else focused_load e rootPath maxTokens rest st1)))"

definition focused_loadContext :: "env \<Rightarrow> string \<Rightarrow> LoadingOptions
    \<Rightarrow> (error + LoadedContext) \<times> call list" where
  "focused_loadContext e rootPath options =
     (if no_query (o_query options) \<and> no_patterns (o_includePatterns options)
      then (Inl ConfigurationError, [])
      else
        (let maxTokens = or_default (o_maxTokens options) 8000;
             walked = findAllFiles e options rootPath;
             allFiles = ws_files walked;
             calls = ws_log walked @ [ScoreFiles allFiles] in
         case scoreFilesByFocus e allFiles rootPath options of
           Inl err \<Rightarrow> (Inl err, calls)
         | Inr scoredFiles \<Rightarrow>
             (let st = focused_load e rootPath maxTokens scoredFiles
                         \<lparr>ld_files = [], ld_relevance = [], ld_totalTokens = 0, ld_log = calls\<rparr>;
                  filesLoaded = length (ld_files st)
              in (Inr \<lparr>lc_files = ld_files st,
                       lc_metadata = FocusedMeta (ld_relevance st)
                         \<lparr>fsum_query = o_query options, fsum_patterns = o_includePatterns options,
                          fsum_filesFound = length scoredFiles, fsum_filesLoaded = filesLoaded,
                          fsum_averageScore =
                            js_div (sum_list (map fr_score (take filesLoaded scoredFiles)))
                              (real filesLoaded)\<rparr>,
                       lc_totalTokens = ld_totalTokens st, lc_strategy = ''focused''\<rparr>,
                  ld_log st))))"

section \<open>ProgressiveLoadingStrategy\<close>

text \<open>\<open>loadCoreFiles\<close>: the entry points, then the core files that are not loaded yet.\<close>

definition load_entryPoint :: "env \<Rightarrow> string \<Rightarrow> (string \<times> string) list \<Rightarrow> string
    \<Rightarrow> (string \<times> string) list" where
  "load_entryPoint e rootPath files entryPoint =
     (case fs_readFile e (fs_join e rootPath entryPoint) of
        None \<Rightarrow> files
      | Some content \<Rightarrow> AList.update entryPoint content files)"

definition corePatterns :: "string list" where
  "corePatterns = [''README.md'', ''readme.md'', ''package.json'', ''tsconfig.json'',
     ''.env.example'', ''docker-compose.yml'']"

definition load_corePattern :: "env \<Rightarrow> string \<Rightarrow> (string \<times> string) list \<Rightarrow> string
    \<Rightarrow> (string \<times> string) list" where
  "load_corePattern e rootPath files pattern =
     (if pattern \<in> fst ` set files then files
      else case fs_exists e (fs_join e rootPath pattern) of
             Some True \<Rightarrow>
               (case fs_readFile e (fs_join e rootPath pattern) of
                  None \<Rightarrow> files
                | Some content \<Rightarrow> AList.update pattern content files)
           | _ \<Rightarrow> files)"

definition loadCoreFiles :: "env \<Rightarrow> string \<Rightarrow> string list \<Rightarrow> (string \<times> string) list" where
  "loadCoreFiles e rootPath entryPoints =
     foldl (load_corePattern e rootPath)
       (foldl (load_entryPoint e rootPath) [] entryPoints) corePatterns"

text \<open>
  \<open>loadConfigFiles\<close>. The comparator of its sort answers 1 both ways for two files
  without a priority, so the order is the engine's: \<open>sort_configs\<close>.
\<close>

definition loadConfigFiles :: "env \<Rightarrow> string \<Rightarrow> string list \<Rightarrow> (string \<times> string) list" where
  "loadConfigFiles e rootPath configFiles =
     foldl (load_entryPoint e rootPath) [] (take 10 (sort_configs e configFiles))"

text \<open>
  The loops of stages 2 and 3 over the files read: \<open>break\<close> at the first file that does
  not fit.
\<close>

fun load_until_miss :: "int \<Rightarrow> (string \<times> string) list \<Rightarrow> (string \<times> string) list \<times> nat
    \<Rightarrow> (string \<times> string) list \<times> nat" where
  "load_until_miss maxTokens [] acc = acc"
| "load_until_miss maxTokens ((filePath, content) # rest) acc =
     (case acc of (files, totalTokens) \<Rightarrow>
        if int totalTokens + int (estimateTokens content) > maxTokens then acc
        else load_until_miss maxTokens rest
               (AList.update filePath content files, totalTokens + estimateTokens content))"

text \<open>The loops of stages 4 and 5 over the files a sub-loader returned.\<close>

definition add_loaded :: "(string \<times> string) list \<times> nat \<Rightarrow> string \<times> string
    \<Rightarrow> (string \<times> string) list \<times> nat" where
  "add_loaded acc kv =
     (case acc of (files, totalTokens) \<Rightarrow>
        (AList.update (fst kv) (snd kv) files, totalTokens + estimateTokens (snd kv)))"

definition ignorePatterns :: "string list" where
  "ignorePatterns =
     [''node_modules'', ''.git'', ''.svn'', ''.hg'', ''dist'', ''build'', ''coverage'', ''.cache'',
      ''.next'', ''.nuxt'', ''.turbo'', ''venv'', ''__pycache__'', ''.pytest_cache'', ''.mypy_cache'',
      ''.DS_Store'', ''Thumbs.db'']"

definition shouldIgnore :: "string \<Rightarrow> bool" where
  "shouldIgnore name = (name \<in> set ignorePatterns \<or> startsWith name ''.'')"

definition sourceExtensions :: "string list" where
  "sourceExtensions =
     [''.ts'', ''.tsx'', ''.js'', ''.jsx'', ''.py'', ''.go'', ''.rs'', ''.java'',
      ''.cs'', ''.cpp'', ''.c'', ''.h'', ''.rb'', ''.php'', ''.swift'', ''.kt'']"

definition isSourceFile :: "string \<Rightarrow> bool" where
  "isSourceFile name = list_ex (\<lambda>ext. endsWith name ext) sourceExtensions"

text \<open>\<open>findSourceFiles\<close>: the walk keeps the directories visited and the files found.\<close>

fun source_entries :: "(string \<Rightarrow> string set \<times> string list \<Rightarrow> string set \<times> string list)
    \<Rightarrow> env \<Rightarrow> string \<Rightarrow> string \<Rightarrow> string list \<Rightarrow> string set \<times> string list
    \<Rightarrow> string set \<times> string list" where
  "source_entries rec e rootPath dir [] st = st"
| "source_entries rec e rootPath dir (entry # rest) st =
     (let fullPath = fs_join e dir entry in
      if shouldIgnore entry then source_entries rec e rootPath dir rest st
      else case fs_isDirectory e fullPath of
             None \<Rightarrow> st
           | Some True \<Rightarrow> source_entries rec e rootPath dir rest (rec fullPath st)
           | Some False \<Rightarrow>
               if isSourceFile entry
               then source_entries rec e rootPath dir rest
                      (fst st, snd st @ [fs_relative e rootPath fullPath])
               else source_entries rec e rootPath dir rest st)"

function source_walk :: "env \<Rightarrow> string \<Rightarrow> string \<Rightarrow> nat \<Rightarrow> string set \<times> string list
    \<Rightarrow> string set \<times> string list" where
  "source_walk e rootPath dir depth st =
     (if depth > 5 \<or> dir \<in> fst st then st
      else case fs_listDirectory e dir of
             None \<Rightarrow> (insert dir (fst st), snd st)
           | Some entries \<Rightarrow>
               source_entries (\<lambda>p s. source_walk e rootPath p (depth + 1) s)
                 e rootPath dir entries (insert dir (fst st), snd st))"
  by pat_completeness auto
termination
  by (relation "measure (\<lambda>(e, rootPath, dir, depth, st). 6 - depth)") auto

declare source_walk.simps [simp del]

definition findSourceFiles :: "env \<Rightarrow> string \<Rightarrow> string list" where
  "findSourceFiles e rootPath = snd (source_walk e rootPath rootPath 0 ({}, []))"

text \<open>
  The soft-skip loop of \<open>loadRelevantFiles\<close>, \<open>loadDocumentation\<close> and
  \<open>loadFilesAtLevel\<close>: the files loaded so far and the tokens used.
\<close>

definition admit :: "int \<Rightarrow> string \<Rightarrow> string \<Rightarrow> (string \<times> string) list \<times> nat
    \<Rightarrow> (string \<times> string) list \<times> nat" where
  "admit tokenBudget key content acc =
     (case acc of (files, tokensUsed) \<Rightarrow>
        if int tokensUsed + int (estimateTokens content) \<le> tokenBudget
        then (AList.update key content files, tokensUsed + estimateTokens content)
        else acc)"

fun relevant_loop :: "env \<Rightarrow> string \<Rightarrow> int \<Rightarrow> FileRelevance list
    \<Rightarrow> (string \<times> string) list \<times> nat \<Rightarrow> (string \<times> string) list \<times> nat" where
  "relevant_loop e rootPath tokenBudget [] acc = acc"
| "relevant_loop e rootPath tokenBudget (f # rest) acc =
     (if int (snd acc) \<ge> tokenBudget then acc
      else case fs_readFile e (fs_join e rootPath (fr_path f)) of
             None \<Rightarrow> relevant_loop e rootPath tokenBudget rest acc
           | Some content \<Rightarrow>
               relevant_loop e rootPath tokenBudget rest (admit tokenBudget (fr_path f) content acc))"

definition relevantCriteria :: "string \<Rightarrow> string \<Rightarrow> ScoringCriteria" where
  "relevantCriteria rootPath query =
     \<lparr>c_query = Some query, c_contextPath = Some rootPath,
      c_fileTypes = Some [''.ts'', ''.tsx'', ''.js'', ''.jsx'', ''.py'', ''.go'', ''.rs''],
      c_includePatterns = None, c_excludePatterns = None, c_threshold = Some 40,
      c_weights = None\<rparr>"

definition loadRelevantFiles :: "env \<Rightarrow> string \<Rightarrow> string \<Rightarrow> int \<Rightarrow> (string \<times> string) list
    \<Rightarrow> error + (string \<times> string) list" where
  "loadRelevantFiles e rootPath query tokenBudget existingFiles =
     (let sourceFiles = findSourceFiles e rootPath;
          unloadedFiles = filter (\<lambda>f. f \<notin> fst ` set existingFiles) sourceFiles in
      case scoreFiles e unloadedFiles (relevantCriteria rootPath query) of
        Inl err \<Rightarrow> Inl err
      | Inr scoredFiles \<Rightarrow> Inr (fst (relevant_loop e rootPath tokenBudget scoredFiles ([], 0))))"

definition mainDocs :: "string list" where
  "mainDocs = [''README.md'', ''CONTRIBUTING.md'', ''API.md'', ''ARCHITECTURE.md'']"

fun mainDocs_loop :: "env \<Rightarrow> string \<Rightarrow> int \<Rightarrow> string list
    \<Rightarrow> (string \<times> string) list \<times> nat \<Rightarrow> (string \<times> string) list \<times> nat" where
  "mainDocs_loop e rootPath tokenBudget [] acc = acc"
| "mainDocs_loop e rootPath tokenBudget (docFile # rest) acc =
     (if int (snd acc) \<ge> tokenBudget then acc
      else case fs_exists e (fs_join e rootPath docFile) of
             Some True \<Rightarrow>
               (case fs_readFile e (fs_join e rootPath docFile) of
                  None \<Rightarrow> mainDocs_loop e rootPath tokenBudget rest acc
                | Some content \<Rightarrow>
                    mainDocs_loop e rootPath tokenBudget rest (admit tokenBudget docFile content acc))
           | _ \<Rightarrow> mainDocs_loop e rootPath tokenBudget rest acc)"

definition findDocumentationFiles :: "env \<Rightarrow> string \<Rightarrow> string list" where
  "findDocumentationFiles e docsPath =
     (case fs_listDirectory e docsPath of
        None \<Rightarrow> []
      | Some entries \<Rightarrow>
          map (\<lambda>entry. fs_join e docsPath entry)
            (filter (\<lambda>entry. endsWith (toLowerCase entry) ''.md'') entries))"

text \<open>The loop over the files of one docs directory, inside the \<open>try\<close> of that directory.\<close>

fun docFiles_loop :: "env \<Rightarrow> string \<Rightarrow> int \<Rightarrow> string list
    \<Rightarrow> (string \<times> string) list \<times> nat \<Rightarrow> (string \<times> string) list \<times> nat" where
  "docFiles_loop e rootPath tokenBudget [] acc = acc"
| "docFiles_loop e rootPath tokenBudget (docFile # rest) acc =
     (if int (snd acc) \<ge> tokenBudget then acc
      else case fs_readFile e docFile of
             None \<Rightarrow> acc
           | Some content \<Rightarrow>
               docFiles_loop e rootPath tokenBudget rest
                 (admit tokenBudget (fs_relative e rootPath docFile) content acc))"

fun docsDirs_loop :: "env \<Rightarrow> string \<Rightarrow> int \<Rightarrow> string list
    \<Rightarrow> (string \<times> string) list \<times> nat \<Rightarrow> (string \<times> string) list \<times> nat" where
  "docsDirs_loop e rootPath tokenBudget [] acc = acc"
| "docsDirs_loop e rootPath tokenBudget (docsDir # rest) acc =
     (if int (snd acc) \<ge> tokenBudget then acc
      else docsDirs_loop e rootPath tokenBudget rest
             (docFiles_loop e rootPath tokenBudget
                (take 5 (findDocumentationFiles e (fs_join e rootPath docsDir))) acc))"

definition loadDocumentation :: "env \<Rightarrow> string \<Rightarrow> string list \<Rightarrow> int \<Rightarrow> (string \<times> string) list" where
  "loadDocumentation e rootPath docsDirs tokenBudget =
     fst (docsDirs_loop e rootPath tokenBudget docsDirs
            (mainDocs_loop e rootPath tokenBudget mainDocs ([], 0)))"

text \<open>
  \<open>loadContext\<close>, stage by stage (the analysis of the project is stage 1). Each stage
  takes the files loaded so far with their token total.
\<close>

definition stage2 :: "env \<Rightarrow> string \<Rightarrow> ProjectInfo \<Rightarrow> int \<Rightarrow> (string \<times> string) list \<times> nat" where
  "stage2 e rootPath projectInfo maxTokens =
     load_until_miss maxTokens (loadCoreFiles e rootPath (pi_entryPoints projectInfo)) ([], 0)"

definition stage3_runs :: "int \<Rightarrow> (string \<times> string) list \<times> nat \<Rightarrow> bool" where
  "stage3_runs maxTokens acc = (real (snd acc) < real_of_int maxTokens * 0.8)"

definition stage3 :: "env \<Rightarrow> string \<Rightarrow> ProjectInfo \<Rightarrow> int \<Rightarrow> (string \<times> string) list \<times> nat
    \<Rightarrow> (string \<times> string) list \<times> nat" where
  "stage3 e rootPath projectInfo maxTokens acc =
     (if stage3_runs maxTokens acc
      then load_until_miss maxTokens (loadConfigFiles e rootPath (pi_configFiles projectInfo)) acc
      else acc)"

definition stage4 :: "env \<Rightarrow> string \<Rightarrow> LoadingOptions \<Rightarrow> int \<Rightarrow> (string \<times> string) list \<times> nat
    \<Rightarrow> error + (string \<times> string) list \<times> nat" where
  "stage4 e rootPath options maxTokens acc =
     (case o_query options of
        None \<Rightarrow> Inr acc
      | Some query \<Rightarrow>
          if query \<noteq> [] \<and> real (snd acc) < real_of_int maxTokens * 0.9
          then (case loadRelevantFiles e rootPath query (maxTokens - int (snd acc)) (fst acc) of
                  Inl err \<Rightarrow> Inl err
                | Inr relevantFiles \<Rightarrow> Inr (foldl add_loaded acc relevantFiles))
          else Inr acc)"

definition stage5 :: "env \<Rightarrow> string \<Rightarrow> ProjectInfo \<Rightarrow> int \<Rightarrow> (string \<times> string) list \<times> nat
    \<Rightarrow> (string \<times> string) list \<times> nat" where
  "stage5 e rootPath projectInfo maxTokens acc =
     (if real (snd acc) < real_of_int maxTokens * 0.95
      then foldl add_loaded acc
             (loadDocumentation e rootPath (pi_docsDirs projectInfo) (maxTokens - int (snd acc)))
      else acc)"

text \<open>
  The sort of stage 3 is in place, so the project info of the metadata holds the sorted
  config files when the stage has run.
\<close>

definition progressive_loadContext :: "env \<Rightarrow> string \<Rightarrow> LoadingOptions \<Rightarrow> error + LoadedContext" where
  "progressive_loadContext e rootPath options =
     (let maxTokens = or_default (o_maxTokens options) 8000 in
      case analyzeProject e rootPath of
        None \<Rightarrow> Inl IOError
      | Some projectInfo \<Rightarrow>
          (let acc2 = stage2 e rootPath projectInfo maxTokens;
               acc3 = stage3 e rootPath projectInfo maxTokens acc2
           in case stage4 e rootPath options maxTokens acc3 of
                Inl err \<Rightarrow> Inl err
              | Inr acc4 \<Rightarrow>
                  (let acc5 = stage5 e rootPath projectInfo maxTokens acc4
                   in Inr \<lparr>lc_files = fst acc5,
                           lc_metadata = ProgressiveMeta
                             (if stage3_runs maxTokens acc2
                              then projectInfo\<lparr>pi_configFiles :=
                                     sort_configs e (pi_configFiles projectInfo)\<rparr>
                              else projectInfo),
                           lc_totalTokens = snd acc5, lc_strategy = ''progressive''\<rparr>)))"

section \<open>BreadthFirstLoadingStrategy\<close>

definition ignoredDirectories :: "string list" where
  "ignoredDirectories =
     [''node_modules'', ''.git'', ''.svn'', ''.hg'', ''dist'', ''build'', ''coverage'', ''.cache'',
      ''.next'', ''.nuxt'', ''.turbo'', ''venv'', ''__pycache__'', ''.pytest_cache'', ''.mypy_cache'',
      ''vendor'', ''tmp'', ''temp'']"

definition isIgnoredDirectory :: "string \<Rightarrow> bool" where
  "isIgnoredDirectory name = (name \<in> set ignoredDirectories \<or> startsWith name ''.'')"

definition breadth_shouldExclude :: "env \<Rightarrow> LoadingOptions \<Rightarrow> string \<Rightarrow> bool option" where
  "breadth_shouldExclude e options entry =
     (if isIgnoredDirectory entry then Some True
      else case o_excludePatterns options of
             None \<Rightarrow> Some False
           | Some patterns \<Rightarrow> some_pattern (breadth_matchesPattern e entry) patterns)"

definition commonExtensions :: "string list" where
  "commonExtensions =
     [''.ts'', ''.tsx'', ''.js'', ''.jsx'', ''.py'', ''.go'', ''.rs'', ''.java'',
      ''.json'', ''.yaml'', ''.yml'', ''.md'', ''.txt'', ''.env.example'']"

text \<open>\<open>basename(filename).split('.').pop()?.toLowerCase()\<close>\<close>

definition lastExtension :: "env \<Rightarrow> string \<Rightarrow> string" where
  "lastExtension e filename = toLowerCase (last (split_on CHR ''.'' (fs_basename e filename)))"

definition shouldIncludeFile :: "env \<Rightarrow> LoadingOptions \<Rightarrow> string \<Rightarrow> bool option" where
  "shouldIncludeFile e options filename =
     (let ext = lastExtension e filename in
      if (case o_fileTypes options of
            None \<Rightarrow> False
          | Some fileTypes \<Rightarrow> fileTypes \<noteq> [] \<and> ext \<noteq> [] \<and> (''.'' @ ext) \<notin> set fileTypes)
      then Some False
      else case o_includePatterns options of
             Some patterns \<Rightarrow> some_pattern (breadth_matchesPattern e filename) patterns
           | None \<Rightarrow> Some (ext \<noteq> [] \<and> (''.'' @ ext) \<in> set commonExtensions))"

definition priorities :: "(string \<times> int) list" where
  "priorities =
     [(''README.md'', 1), (''readme.md'', 1), (''package.json'', 2), (''tsconfig.json'', 3),
      (''index.ts'', 4), (''index.js'', 4), (''main.ts'', 5), (''main.js'', 5),
      (''app.ts'', 6), (''app.js'', 6)]"

text \<open>
  \<open>priorities[a] || 999\<close> reads a plain object: for an entry named like a member of
  \<open>Object.prototype\<close> it is that member, which is truthy and not a number, and the
  difference with it is \<open>NaN\<close>. The comparator is then not consistent, and the order of
  the sorted entries is the engine's: \<open>sort_entries\<close>.
\<close>

definition prototypeMembers :: "string list" where
  "prototypeMembers =
     [''constructor'', ''hasOwnProperty'', ''isPrototypeOf'', ''propertyIsEnumerable'',
      ''toLocaleString'', ''toString'', ''valueOf'', ''__proto__'', ''__defineGetter__'',
      ''__defineSetter__'', ''__lookupGetter__'', ''__lookupSetter__'']"

definition priorityOf :: "string \<Rightarrow> int" where
  "priorityOf a = (case map_of priorities a of None \<Rightarrow> 999 | Some p \<Rightarrow> p)"

definition sortEntries :: "env \<Rightarrow> string list \<Rightarrow> string list" where
  "sortEntries e entries =
     (if list_ex (\<lambda>a. a \<in> set prototypeMembers) entries then sort_entries e entries
      else js_sort (\<lambda>a b. if priorityOf a \<noteq> priorityOf b then priorityOf a - priorityOf b
                         else locale_compare e a b) entries)"

text \<open>\<open>getDirectoriesAtLevel\<close>: each entry has its own \<open>try\<close>, so a failing one is skipped.\<close>

fun dir_entries :: "(string \<Rightarrow> string set \<times> string list \<Rightarrow> string set \<times> string list)
    \<Rightarrow> env \<Rightarrow> string \<Rightarrow> string list \<Rightarrow> string set \<times> string list
    \<Rightarrow> string set \<times> string list" where
  "dir_entries rec e currentPath [] st = st"
| "dir_entries rec e currentPath (entry # rest) st =
     (if isIgnoredDirectory entry then dir_entries rec e currentPath rest st
      else case fs_isDirectory e (fs_join e currentPath entry) of
             Some True \<Rightarrow> dir_entries rec e currentPath rest (rec (fs_join e currentPath entry) st)
           | _ \<Rightarrow> dir_entries rec e currentPath rest st)"

function findDirs :: "env \<Rightarrow> nat \<Rightarrow> string \<Rightarrow> nat \<Rightarrow> string set \<times> string list
    \<Rightarrow> string set \<times> string list" where
  "findDirs e targetLevel currentPath currentLevel st =
     (if currentLevel > targetLevel \<or> currentPath \<in> fst st then st
      else if currentLevel = targetLevel then (insert currentPath (fst st), snd st @ [currentPath])
      else case fs_listDirectory e currentPath of
             None \<Rightarrow> (insert currentPath (fst st), snd st)
           | Some entries \<Rightarrow>
               dir_entries (\<lambda>p s. findDirs e targetLevel p (currentLevel + 1) s)
                 e currentPath entries (insert currentPath (fst st), snd st))"
  by pat_completeness auto
termination
  by (relation "measure (\<lambda>(e, targetLevel, currentPath, currentLevel, st).
        targetLevel + 1 - currentLevel)") auto

declare findDirs.simps [simp del]

definition getDirectoriesAtLevel :: "env \<Rightarrow> string \<Rightarrow> nat \<Rightarrow> string list" where
  "getDirectoriesAtLevel e rootPath targetLevel =
     (if targetLevel = 0 then [rootPath] else snd (findDirs e targetLevel rootPath 0 ({}, [])))"

text \<open>
  The loops of \<open>loadFilesAtLevel\<close>. \<open>listDirectory\<close> and \<open>shouldExclude\<close> stand outside the
  \<open>try\<close>: when they throw, the level and the whole run fail.
\<close>

fun level_entries :: "env \<Rightarrow> LoadingOptions \<Rightarrow> string \<Rightarrow> int \<Rightarrow> string \<Rightarrow> string list
    \<Rightarrow> (string \<times> string) list \<times> nat \<Rightarrow> error + (string \<times> string) list \<times> nat" where
  "level_entries e options rootPath tokenBudget dir [] acc = Inr acc"
| "level_entries e options rootPath tokenBudget dir (entry # rest) acc =
     (if int (snd acc) \<ge> tokenBudget then Inr acc
      else
        (let fullPath = fs_join e dir entry in
         case breadth_shouldExclude e options entry of
           None \<Rightarrow> Inl RegExpError
         | Some True \<Rightarrow> level_entries e options rootPath tokenBudget dir rest acc
         | Some False \<Rightarrow>
             (case fs_isFile e fullPath of
                Some True \<Rightarrow>
                  (case shouldIncludeFile e options entry of
                     Some True \<Rightarrow>
                       (case fs_readFile e fullPath of
                          None \<Rightarrow> level_entries e options rootPath tokenBudget dir rest acc
                        | Some content \<Rightarrow>
                            level_entries e options rootPath tokenBudget dir rest
                              (admit tokenBudget (fs_relative e rootPath fullPath) content acc))
                   | _ \<Rightarrow> level_entries e options rootPath tokenBudget dir rest acc)
              | _ \<Rightarrow> level_entries e options rootPath tokenBudget dir rest acc)))"

fun level_dirs :: "env \<Rightarrow> LoadingOptions \<Rightarrow> string \<Rightarrow> int \<Rightarrow> string list
    \<Rightarrow> (string \<times> string) list \<times> nat \<Rightarrow> error + (string \<times> string) list \<times> nat" where
  "level_dirs e options rootPath tokenBudget [] acc = Inr acc"
| "level_dirs e options rootPath tokenBudget (dir # rest) acc =
     (if int (snd acc) \<ge> tokenBudget then Inr acc
      else case fs_listDirectory e dir of
             None \<Rightarrow> Inl IOError
           | Some entries \<Rightarrow>
               (case level_entries e options rootPath tokenBudget dir (sortEntries e entries) acc of
                  Inl err \<Rightarrow> Inl err
                | Inr acc' \<Rightarrow> level_dirs e options rootPath tokenBudget rest acc'))"

definition loadFilesAtLevel :: "env \<Rightarrow> LoadingOptions \<Rightarrow> string \<Rightarrow> nat \<Rightarrow> int
    \<Rightarrow> error + (string \<times> string) list" where
  "loadFilesAtLevel e options rootPath targetLevel tokenBudget =
     (case level_dirs e options rootPath tokenBudget
             (getDirectoriesAtLevel e rootPath targetLevel) ([], 0) of
        Inl err \<Rightarrow> Inl err
      | Inr acc \<Rightarrow> Inr (fst acc))"

record breadth_state =
  bs_files :: "(string \<times> string) list"
  bs_totalTokens :: nat
  bs_levelStats :: "(nat \<times> nat \<times> nat) list"

text \<open>The body of the loop of \<open>loadContext\<close> over the levels, after the level is loaded.\<close>

definition add_level :: "breadth_state \<Rightarrow> nat \<Rightarrow> (string \<times> string) list \<Rightarrow> breadth_state" where
  "add_level st level levelFiles =
     (let acc = foldl add_loaded (bs_files st, 0) levelFiles;
          levelTokens = snd acc;
          levelFileCount = length levelFiles
      in \<lparr>bs_files = fst acc,
          bs_totalTokens = bs_totalTokens st + levelTokens,
          bs_levelStats = (if levelFileCount > 0
                           then bs_levelStats st @ [(level, levelFileCount, levelTokens)]
                           else bs_levelStats st)\<rparr>)"

function breadth_levels :: "env \<Rightarrow> LoadingOptions \<Rightarrow> string \<Rightarrow> int \<Rightarrow> int \<Rightarrow> nat
    \<Rightarrow> breadth_state \<Rightarrow> error + breadth_state" where
  "breadth_levels e options rootPath maxTokens maxDepth level st =
     (if int level \<le> maxDepth \<and> int (bs_totalTokens st) < maxTokens then
        (case loadFilesAtLevel e options rootPath level (maxTokens - int (bs_totalTokens st)) of
           Inl err \<Rightarrow> Inl err
         | Inr levelFiles \<Rightarrow>
             breadth_levels e options rootPath maxTokens maxDepth (level + 1)
               (add_level st level levelFiles))
      else Inr st)"
  by pat_completeness auto
termination
  by (relation "measure (\<lambda>(e, options, rootPath, maxTokens, maxDepth, level, st).
        nat (maxDepth + 1 - int level))") auto

declare breadth_levels.simps [simp del]

definition breadth_loadContext :: "env \<Rightarrow> string \<Rightarrow> LoadingOptions \<Rightarrow> error + LoadedContext" where
  "breadth_loadContext e rootPath options =
     (case breadth_levels e options rootPath (or_default (o_maxTokens options) 8000)
             (or_default (o_maxDepth options) 5) 0
             \<lparr>bs_files = [], bs_totalTokens = 0, bs_levelStats = []\<rparr> of
        Inl err \<Rightarrow> Inl err
      | Inr st \<Rightarrow>
          Inr \<lparr>lc_files = bs_files st, lc_metadata = BreadthMeta (bs_levelStats st),
               lc_totalTokens = bs_totalTokens st, lc_strategy = ''breadth-first''\<rparr>)"

section \<open>A small project for the examples\<close>

text \<open>
  The project \<open>/p\<close> holds \<open>README.md\<close>, \<open>package.json\<close> and \<open>src/index.ts\<close>. Paths are joined
  with \<open>/\<close>; a glob matches when the path includes it as a plain text.
\<close>

definition demo_files :: "(string \<times> string) list" where
  "demo_files =
     [(''/p/README.md'', ''# Demo''),
      (''/p/package.json'', ''{}''),
      (''/p/src/index.ts'', ''export const x = 1'')]"

definition demo_dirs :: "(string \<times> string list) list" where
  "demo_dirs = [(''/p'', [''src'', ''package.json'', ''README.md'']), (''/p/src'', [''index.ts''])]"

definition demo_basename :: "string \<Rightarrow> string" where
  "demo_basename p = last (split_on CHR ''/'' p)"

definition demo_extname :: "string \<Rightarrow> string" where
  "demo_extname p =
     (if CHR ''.'' \<in> set (demo_basename p) then CHR ''.'' # last (split_on CHR ''.'' (demo_basename p))
      else [])"

definition demo_env :: env where
  "demo_env =
     \<lparr>fs_readFile = map_of demo_files,
      fs_listDirectory = map_of demo_dirs,
      fs_getStats = (\<lambda>p. case map_of demo_files p of
          Some c \<Rightarrow> Some \<lparr>stat_size = length c, stat_modifiedAt = 0, stat_isDirectory = False\<rparr>
        | None \<Rightarrow> (case map_of demo_dirs p of
            Some es \<Rightarrow> Some \<lparr>stat_size = 0, stat_modifiedAt = 0, stat_isDirectory = True\<rparr>
          | None \<Rightarrow> None)),
      fs_isFile = (\<lambda>p. Some (map_of demo_files p \<noteq> None)),
      fs_isDirectory = (\<lambda>p. Some (map_of demo_dirs p \<noteq> None)),
      fs_exists = (\<lambda>p. Some (\<not> (map_of demo_files p = None \<and> map_of demo_dirs p = None))),
      fs_join = (\<lambda>a b. a @ ''/'' @ b),
      fs_relative = (\<lambda>a b. drop (length a + 1) b),
      fs_basename = demo_basename,
      path_sep = CHR ''/'',
      path_basename = demo_basename,
      path_extname = demo_extname,
      path_parse_name = (\<lambda>p. take (length (demo_basename p) - length (demo_extname p)) (demo_basename p)),
      path_join = (\<lambda>a b. a @ ''/'' @ b),
      path_relative = (\<lambda>a b. drop (length a + 1) b),
      date_now = 0,
      count_matches = (\<lambda>t c. Some (if str_includes c t then 1 else 0)),
      locale_compare = (\<lambda>a b. 0),
      scorer_matchesPattern = (\<lambda>p g. Some (str_includes p g)),
      focused_matchesPattern = (\<lambda>p g. Some (str_includes p g)),
      breadth_matchesPattern = (\<lambda>p g. Some (str_includes p g)),
      analyzeProject = (\<lambda>p. Some \<lparr>pi_entryPoints = [''src/index.ts''], pi_configFiles = [],
                                   pi_docsDirs = []\<rparr>),
      sort_configs = (\<lambda>cs. cs),
      sort_entries = (\<lambda>es. es)\<rparr>"

definition demo_options :: LoadingOptions where
  "demo_options = \<lparr>o_maxTokens = None, o_maxDepth = None, o_fileTypes = None,
     o_includePatterns = None, o_excludePatterns = None, o_query = None\<rparr>"

definition demo_threshold :: ScoringCriteria where
  "demo_threshold = \<lparr>c_query = None, c_contextPath = None, c_fileTypes = None,
     c_includePatterns = Some [''src''], c_excludePatterns = None, c_threshold = Some 75,
     c_weights = None\<rparr>"

definition demo_focus :: LoadingOptions where
  "demo_focus = demo_options\<lparr>o_includePatterns := Some [''src'']\<rparr>"

definition demo_negative :: LoadingOptions where
  "demo_negative = demo_options\<lparr>o_maxTokens := Some (- 1)\<rparr>"

definition demo_zero :: LoadingOptions where
  "demo_zero = demo_options\<lparr>o_maxTokens := Some 0\<rparr>"

definition demo_paths :: "string list" where
  "demo_paths = [''README.md'', ''src/index.ts'', ''package.json'']"

text \<open>The three files as the scorer returns them for the focused run.\<close>

definition demo_index :: FileRelevance where
  "demo_index = \<lparr>fr_path = ''src/index.ts'', fr_score = 100,
     fr_factors = calculateRelevance demo_env ''src/index.ts'' (Some ''/p''),
     fr_reason = generateReason (calculateRelevance demo_env ''src/index.ts'' (Some ''/p'')) 530\<rparr>"

definition demo_package :: FileRelevance where
  "demo_package = \<lparr>fr_path = ''package.json'', fr_score = 73,
     fr_factors = calculateRelevance demo_env ''package.json'' (Some ''/p''),
     fr_reason = generateReason (calculateRelevance demo_env ''package.json'' (Some ''/p'')) 73\<rparr>"

definition demo_readme :: FileRelevance where
  "demo_readme = \<lparr>fr_path = ''README.md'', fr_score = 71,
     fr_factors = calculateRelevance demo_env ''README.md'' (Some ''/p''),
     fr_reason = generateReason (calculateRelevance demo_env ''README.md'' (Some ''/p'')) 71\<rparr>"

text \<open>A section of four lines, for the summaries.\<close>

definition demo_lines :: string where
  "demo_lines = [CHR ''a'', NL, CHR ''b'', NL, CHR ''c'', NL, CHR ''d'']"








section \<open>The claims in the words of the specification\<close>

text \<open>
  Selective optimization as the specification words it: the sections sorted by descending
  score (a stable sort), each appended only if its cost fits the remaining budget and
  skipped otherwise; the chosen sections are joined by blank lines.
\<close>

fun spec_fit :: "int \<Rightarrow> scored_section list \<Rightarrow> scored_section list" where
  "spec_fit remaining [] = []"
| "spec_fit remaining (s # ss) =
     (if int (sc_tokens s) \<le> remaining then s # spec_fit (remaining - int (sc_tokens s)) ss
      else spec_fit remaining ss)"

definition spec_selective :: "int \<Rightarrow> scored_section list \<Rightarrow> string \<times> nat" where
  "spec_selective budget scored =
     (let chosen = spec_fit budget (sort_key (\<lambda>s. - sc_score s) scored)
      in (join [NL, NL] (map sc_content chosen), sum_list (map sc_tokens chosen)))"

text \<open>
  The budget of a run as the specification words it: \<open>maxTokens\<close>, and 8000 when the
  options give none.
\<close>

definition spec_budget :: "LoadingOptions \<Rightarrow> int" where
  "spec_budget options = (case o_maxTokens options of None \<Rightarrow> 8000 | Some n \<Rightarrow> n)"

text \<open>The sum of the per-file token estimates of the files of a file map.\<close>

definition file_tokens :: "(string \<times> string) list \<Rightarrow> nat" where
  "file_tokens files = sum_list (map (\<lambda>kv. estimateTokens (snd kv)) files)"

text \<open>
  The scores a call delivers: the ones of the list \<open>scoreFiles\<close> returns, and the ones the
  focused strategy records in its \<open>relevance\<close> metadata, with their paths. A failed call
  delivers none.
\<close>

definition scores_of :: "error + FileRelevance list \<Rightarrow> real list" where
  "scores_of r = (case r of Inl err \<Rightarrow> [] | Inr fs \<Rightarrow> map fr_score fs)"

definition recorded_scores :: "(error + LoadedContext) \<times> call list \<Rightarrow> (string \<times> real) list" where
  "recorded_scores r =
     (case fst r of
        Inl err \<Rightarrow> []
      | Inr ctx \<Rightarrow>
          (case lc_metadata ctx of
             FocusedMeta relevance summary \<Rightarrow> map (\<lambda>(p, s, reason). (p, s)) relevance
           | _ \<Rightarrow> []))"

text \<open>The threshold of \<open>scoreFiles\<close> as the specification words it.\<close>

definition spec_passes :: "real option \<Rightarrow> FileRelevance \<Rightarrow> bool" where
  "spec_passes threshold f = (case threshold of None \<Rightarrow> True | Some t \<Rightarrow> t \<le> fr_score f)"

text \<open>The include and exclude patterns a scoring criteria carries.\<close>

definition criteria_patterns :: "ScoringCriteria \<Rightarrow> string list" where
  "criteria_patterns criteria =
     (case c_includePatterns criteria of None \<Rightarrow> [] | Some ps \<Rightarrow> ps)
     @ (case c_excludePatterns criteria of None \<Rightarrow> [] | Some ps \<Rightarrow> ps)"

text \<open>
  The state of a loading loop, the file map and the running total, stays in budget: the
  total is at most the budget, and the estimates of the files of the map sum to at most
  the total.
\<close>

definition in_budget :: "int \<Rightarrow> (string \<times> string) list \<times> nat \<Rightarrow> bool" where
  "in_budget budget acc = (int (snd acc) \<le> budget \<and> file_tokens (fst acc) \<le> snd acc)"

text \<open>
  The summarize optimization in words. The sections are taken in descending order of
  importance, and the form \<open>full\<close> of each one is appended while it fits the budget; at
  the first one that does not fit, the form \<open>short\<close> is appended if it fits, and nothing
  after it. The pieces are joined by blank lines.
\<close>

fun spec_pieces :: "(string \<Rightarrow> string) \<Rightarrow> (string \<Rightarrow> string) \<Rightarrow> int \<Rightarrow> nat \<Rightarrow> string list \<Rightarrow> string list" where
  "spec_pieces full short budget used [] = []"
| "spec_pieces full short budget used (s # ss) =
     (if int used + int (estimateTokenCount (full s)) \<le> budget
      then full s # spec_pieces full short budget (used + estimateTokenCount (full s)) ss
      else if int used + int (estimateTokenCount (short s)) \<le> budget then [short s] else [])"

definition spec_summarize :: "(string \<Rightarrow> string) \<Rightarrow> (string \<Rightarrow> string) \<Rightarrow> string \<Rightarrow> int \<Rightarrow> string" where
  "spec_summarize full short content budget =
     join [NL, NL]
       (spec_pieces full short budget 0
          (sort_key (\<lambda>s. - calculateSectionImportance s) (splitIntoSections content)))"

text \<open>
  The regular summary of a section in words: the tag \<open>[<language> code: <name>]\<close> for a
  code block; otherwise, of the lines that are not blank, the first three and every
  section marker after them.
\<close>

definition spec_regular :: "string \<Rightarrow> string" where
  "spec_regular section =
     (if isCodeBlock section then
        ''['' @ detectLanguage section @ '' code''
          @ (case extractFunctionName section of
               None \<Rightarrow> [] | Some name \<Rightarrow> if name = [] then [] else '': '' @ name)
          @ '']''
      else join [NL] (take 3 (nonblank_lines section)
                      @ filter isSectionMarker (drop 3 (nonblank_lines section))))"

text \<open>
  The much shorter summary in words: the first line that is not blank, cut to 100
  characters; for a code block the one-line tag with the first such line that is not a
  fence, cut to 50 characters. Both end in three dots.
\<close>

definition spec_short :: "string \<Rightarrow> string" where
  "spec_short section =
     (if isCodeBlock section then
        ''[Code block: ''
          @ take 50 (case filter (\<lambda>line. \<not> startsWith line ''```'') (nonblank_lines section) of
                       [] \<Rightarrow> [] | line # _ \<Rightarrow> line)
          @ ''...]''
      else take 100 (case nonblank_lines section of [] \<Rightarrow> [] | line # _ \<Rightarrow> line) @ ''...'')"






text \<open>
  A run in a text: \<open>has_run Q n k s\<close> says that \<open>s\<close>, read after \<open>k\<close> characters that satisfy
  \<open>Q\<close>, holds \<open>n\<close> consecutive characters that satisfy \<open>Q\<close>. Three consecutive newlines, and
  two consecutive spaces or tabs.
\<close>

fun has_run :: "(char \<Rightarrow> bool) \<Rightarrow> nat \<Rightarrow> nat \<Rightarrow> string \<Rightarrow> bool" where
  "has_run Q n k [] = (n \<le> k)"
| "has_run Q n k (c # cs) = (n \<le> k \<or> (if Q c then has_run Q n (Suc k) cs else has_run Q n 0 cs))"



section \<open>Lemmas: sorting, joining, sections\<close>

lemma insert_by_desc:
  fixes f :: "'a \<Rightarrow> 'b::linordered_idom"
  shows "insert_by (\<lambda>a b. f b - f a) x ys = insort_key (\<lambda>a. - f a) x ys"
  by (induction ys) auto

lemma js_sort_desc:
  fixes f :: "'a \<Rightarrow> 'b::linordered_idom"
  shows "js_sort (\<lambda>a b. f b - f a) xs = sort_key (\<lambda>a. - f a) xs"
  by (induction xs) (simp_all add: js_sort_def insert_by_desc)

lemma join_Cons: "join sep (x # xs) = x @ concat (map (\<lambda>p. sep @ p) xs)"
  by (induction xs arbitrary: x) simp_all

lemma foldl_append_piece_nonempty:
  "result \<noteq> [] \<Longrightarrow> foldl append_piece result ps = result @ concat (map (\<lambda>p. [NL, NL] @ p) ps)"
proof (induction ps arbitrary: result)
  case Nil
  then show ?case by simp
next
  case (Cons p ps)
  have "append_piece result p \<noteq> []" using Cons.prems by (simp add: append_piece_def)
  from Cons.IH [OF this] Cons.prems show ?case by (simp add: append_piece_def)
qed

lemma foldl_append_piece_join:
  assumes "list_all (\<lambda>p. p \<noteq> []) ps"
  shows "foldl append_piece [] ps = join [NL, NL] ps"
proof (cases ps)
  case Nil
  then show ?thesis by simp
next
  case (Cons p ps')
  with assms have "p \<noteq> []" by simp
  then have "foldl append_piece p ps' = p @ concat (map (\<lambda>p. [NL, NL] @ p) ps')"
    by (rule foldl_append_piece_nonempty)
  then show ?thesis using Cons by (simp add: append_piece_def join_Cons)
qed

lemma selective_fold:
  "foldl (selective_step m) (result, cur) ss =
     (foldl append_piece result (map sc_content (spec_fit (m - int cur) ss)),
      cur + sum_list (map sc_tokens (spec_fit (m - int cur) ss)))"
proof (induction ss arbitrary: result cur)
  case Nil
  then show ?case by simp
next
  case (Cons s ss)
  show ?case
  proof (cases "int (sc_tokens s) \<le> m - int cur")
    case True
    then have "selective_step m (result, cur) s = (append_piece result (sc_content s), cur + sc_tokens s)"
      by (simp add: selective_step_def)
    with True Cons.IH [of "append_piece result (sc_content s)" "cur + sc_tokens s"]
    show ?thesis by (simp add: algebra_simps)
  next
    case False
    then have "selective_step m (result, cur) s = (result, cur)"
      by (simp add: selective_step_def)
    with False Cons.IH [of result cur] show ?thesis by simp
  qed
qed

lemma spec_fit_subset: "set (spec_fit r ss) \<subseteq> set ss"
  by (induction ss arbitrary: r) auto

lemma push_section_nonempty:
  "list_all (\<lambda>s. s \<noteq> []) sections \<Longrightarrow> list_all (\<lambda>s. s \<noteq> []) (push_section sections cur)"
  by (simp add: push_section_def)

lemma split_step_nonempty:
  "list_all (\<lambda>s. s \<noteq> []) (st_sections st) \<Longrightarrow> list_all (\<lambda>s. s \<noteq> []) (st_sections (split_step st line))"
  by (simp add: split_step_def Let_def push_section_nonempty)

lemma foldl_split_step_nonempty:
  "list_all (\<lambda>s. s \<noteq> []) (st_sections st) \<Longrightarrow>
   list_all (\<lambda>s. s \<noteq> []) (st_sections (foldl split_step st lines))"
  by (induction lines arbitrary: st) (simp_all add: split_step_nonempty)

lemma sections_nonempty: "list_all (\<lambda>s. s \<noteq> []) (splitIntoSections content)"
  unfolding splitIntoSections_def Let_def
  by (rule push_section_nonempty, rule foldl_split_step_nonempty) simp

lemma selectivePack_spec_tokens:
  "snd (selectivePack m scored) = snd (spec_selective m scored)"
  by (simp add: selectivePack_def spec_selective_def selective_fold js_sort_desc Let_def)

lemma selectivePack_spec_content:
  assumes "list_all (\<lambda>s. sc_content s \<noteq> []) scored"
  shows "fst (selectivePack m scored) = fst (spec_selective m scored)"
proof -
  let ?chosen = "spec_fit m (sort_key (\<lambda>s. - sc_score s) scored)"
  have "set ?chosen \<subseteq> set scored"
    using spec_fit_subset [of m "sort_key (\<lambda>s. - sc_score s) scored"] by simp
  with assms have "list_all (\<lambda>p. p \<noteq> []) (map sc_content ?chosen)"
    by (auto simp: list_all_iff)
  then have "foldl append_piece [] (map sc_content ?chosen) = join [NL, NL] (map sc_content ?chosen)"
    by (rule foldl_append_piece_join)
  then show ?thesis
    by (simp add: selectivePack_def spec_selective_def selective_fold js_sort_desc Let_def)
qed

lemma split_on_no_sep: "l \<in> set (split_on c s) \<Longrightarrow> c \<notin> set l"
proof (induction s arbitrary: l)
  case Nil
  then show ?case by simp
next
  case (Cons x xs)
  show ?case
  proof (cases "x = c")
    case True
    with Cons show ?thesis by auto
  next
    case False
    with Cons show ?thesis by (cases "split_on c xs") auto
  qed
qed

section \<open>Lemmas: the scorer and the boost\<close>

lemma clamp100_range: "0 \<le> clamp100 x \<and> clamp100 x \<le> 100"
  by (simp add: clamp100_def)

lemma scoreFile_range:
  assumes "scoreFile e filePath criteria = Inr f"
  shows "0 \<le> fr_score f \<and> fr_score f \<le> 100"
proof -
  from assms obtain s where "fr_score f = clamp100 s"
    unfolding scoreFile_def Let_def by (auto split: option.splits)
  then show ?thesis by (simp add: clamp100_range)
qed

lemma scored_range:
  assumes "all_results (map (\<lambda>file. scoreFile e file criteria) files) = Inr scored"
  shows "list_all (\<lambda>f. 0 \<le> fr_score f \<and> fr_score f \<le> 100) scored"
  using assms
proof (induction files arbitrary: scored)
  case Nil
  then show ?case by simp
next
  case (Cons a files)
  then obtain f rest where f: "scoreFile e a criteria = Inr f"
    and rest: "all_results (map (\<lambda>file. scoreFile e file criteria) files) = Inr rest"
    and scored: "scored = f # rest"
    by (auto split: sum.splits)
  from scoreFile_range [OF f] Cons.IH [OF rest] scored show ?case by simp
qed

lemma set_js_sort: "set (js_sort cmp xs) = set xs"
proof -
  have "set (insert_by cmp x ys) = insert x (set ys)" for x ys
    by (induction ys) auto
  then show ?thesis by (induction xs) (simp_all add: js_sort_def)
qed

lemma scoreFiles_range:
  assumes "scoreFiles e files criteria = Inr result"
  shows "list_all (\<lambda>f. 0 \<le> fr_score f \<and> fr_score f \<le> 100) result"
proof -
  from assms obtain scored where
    scored: "all_results (map (\<lambda>file. scoreFile e file criteria) files) = Inr scored"
    and "set result \<subseteq> set (js_sort (\<lambda>a b. fr_score b - fr_score a) scored)"
    unfolding scoreFiles_def by (auto simp: Let_def split: sum.splits option.splits if_splits)
  with scored_range [OF scored] show ?thesis
    by (auto simp: list_all_iff set_js_sort)
qed

lemma all_results_map: "all_results rs = Inr xs \<Longrightarrow> rs = map Inr xs"
  by (induction rs arbitrary: xs) (auto split: sum.splits)

lemma spec_passes_Some: "spec_passes (Some t) = (\<lambda>f. t \<le> fr_score f)"
  by (auto simp: spec_passes_def)

lemma scoreFiles_char:
  assumes "scoreFiles e files criteria = Inr result"
  shows "\<exists>scored. map (\<lambda>file. scoreFile e file criteria) files = map Inr scored
     \<and> result = sort_key (\<lambda>f. - fr_score f) (filter (spec_passes (c_threshold criteria)) scored)"
proof -
  from assms obtain scored where
    scored: "all_results (map (\<lambda>file. scoreFile e file criteria) files) = Inr scored"
    unfolding scoreFiles_def by (auto split: sum.splits)
  have range: "list_all (\<lambda>f. 0 \<le> fr_score f \<and> fr_score f \<le> 100) scored"
    by (rule scored_range [OF scored])
  let ?sorted = "sort_key (\<lambda>f. - fr_score f) scored"
  have res: "result = (case c_threshold criteria of None \<Rightarrow> ?sorted
      | Some t \<Rightarrow> if t = 0 then ?sorted else filter (\<lambda>f. t \<le> fr_score f) ?sorted)"
    using assms scored unfolding scoreFiles_def
    by (simp add: js_sort_desc Let_def)
  have "result = filter (spec_passes (c_threshold criteria)) ?sorted"
  proof (cases "c_threshold criteria")
    case None
    with res show ?thesis by (simp add: spec_passes_def)
  next
    case (Some t)
    show ?thesis
    proof (cases "t = 0")
      case True
      have "filter (\<lambda>f. 0 \<le> fr_score f) ?sorted = ?sorted"
        using range by (simp add: list_all_iff)
      with res Some True show ?thesis by (simp add: spec_passes_Some)
    next
      case False
      with res Some show ?thesis by (simp add: spec_passes_Some)
    qed
  qed
  then have "result = sort_key (\<lambda>f. - fr_score f) (filter (spec_passes (c_threshold criteria)) scored)"
    by (simp add: filter_sort)
  with all_results_map [OF scored] show ?thesis by blast
qed

lemma some_pattern_total:
  "(\<And>g. g \<in> set ps \<Longrightarrow> f g \<noteq> None) \<Longrightarrow> \<exists>b. some_pattern f ps = Some b"
proof (induction ps)
  case Nil
  show ?case by auto
next
  case (Cons p ps)
  from Cons.prems [of p] obtain b where "f p = Some b" by auto
  moreover from Cons obtain c where "some_pattern f ps = Some c" by auto
  ultimately show ?case by (cases b) auto
qed

lemma scoreFile_total:
  assumes "\<And>g. g \<in> set (criteria_patterns criteria) \<Longrightarrow> scorer_matchesPattern e filePath g \<noteq> None"
  shows "\<exists>f. scoreFile e filePath criteria = Inr f"
proof -
  have sp: "\<exists>b. some_pattern (scorer_matchesPattern e filePath) ps = Some b"
    if "set ps \<subseteq> set (criteria_patterns criteria)" for ps
    by (rule some_pattern_total) (use that assms in auto)
  show ?thesis
  proof (cases "c_includePatterns criteria")
    case None
    show ?thesis
    proof (cases "c_excludePatterns criteria")
      case None
      with \<open>c_includePatterns criteria = None\<close> show ?thesis by (simp add: scoreFile_def Let_def)
    next
      case (Some ex)
      then have "set ex \<subseteq> set (criteria_patterns criteria)" by (simp add: criteria_patterns_def)
      from sp [OF this] obtain b where "some_pattern (scorer_matchesPattern e filePath) ex = Some b" ..
      with Some \<open>c_includePatterns criteria = None\<close> show ?thesis by (simp add: scoreFile_def Let_def)
    qed
  next
    case (Some inc)
    then have "set inc \<subseteq> set (criteria_patterns criteria)" by (simp add: criteria_patterns_def)
    from sp [OF this] obtain a where a: "some_pattern (scorer_matchesPattern e filePath) inc = Some a" ..
    show ?thesis
    proof (cases "c_excludePatterns criteria")
      case None
      with Some a show ?thesis by (simp add: scoreFile_def Let_def)
    next
      case (Some ex)
      then have "set ex \<subseteq> set (criteria_patterns criteria)" by (simp add: criteria_patterns_def)
      from sp [OF this] obtain b where "some_pattern (scorer_matchesPattern e filePath) ex = Some b" ..
      with Some \<open>c_includePatterns criteria = Some inc\<close> a show ?thesis
        by (simp add: scoreFile_def Let_def)
    qed
  qed
qed

lemma all_results_total: "(\<And>r. r \<in> set rs \<Longrightarrow> \<exists>x. r = Inr x) \<Longrightarrow> \<exists>xs. all_results rs = Inr xs"
proof (induction rs)
  case Nil
  then show ?case by simp
next
  case (Cons r rs)
  from Cons.prems [of r] obtain x where "r = Inr x" by auto
  moreover from Cons obtain xs where "all_results rs = Inr xs" by auto
  ultimately show ?case by simp
qed

lemma scoreFiles_total:
  assumes "\<forall>p \<in> set files. \<forall>g \<in> set (criteria_patterns criteria). scorer_matchesPattern e p g \<noteq> None"
  shows "\<exists>result. scoreFiles e files criteria = Inr result"
proof -
  have "\<exists>f. scoreFile e p criteria = Inr f" if "p \<in> set files" for p
    by (rule scoreFile_total) (use that assms in auto)
  then have "\<exists>xs. all_results (map (\<lambda>file. scoreFile e file criteria) files) = Inr xs"
    by (intro all_results_total) auto
  then show ?thesis by (auto simp: scoreFiles_def Let_def)
qed

lemma scoreFiles_sorted:
  assumes "scoreFiles e files criteria = Inr result"
  shows "\<exists>scored. map (\<lambda>file. scoreFile e file criteria) files = map Inr scored
     \<and> sorted_wrt (\<lambda>a b. fr_score a \<ge> fr_score b) result
     \<and> (\<forall>k. filter (\<lambda>f. fr_score f = k) result
             = filter (\<lambda>f. fr_score f = k) (filter (spec_passes (c_threshold criteria)) scored))
     \<and> set result = set (filter (spec_passes (c_threshold criteria)) scored)
     \<and> length result = length (filter (spec_passes (c_threshold criteria)) scored)"
proof -
  from scoreFiles_char [OF assms] obtain scored where
    m: "map (\<lambda>file. scoreFile e file criteria) files = map Inr scored"
    and r: "result = sort_key (\<lambda>f. - fr_score f) (filter (spec_passes (c_threshold criteria)) scored)"
    by blast
  let ?kept = "filter (spec_passes (c_threshold criteria)) scored"
  have "sorted (map (\<lambda>f. - fr_score f) result)" using r by simp
  then have s: "sorted_wrt (\<lambda>a b. fr_score a \<ge> fr_score b) result"
    by (simp add: sorted_map)
  have st: "filter (\<lambda>f. fr_score f = k) result = filter (\<lambda>f. fr_score f = k) ?kept" for k
  proof -
    have "filter (\<lambda>f. - fr_score f = - k) result = filter (\<lambda>f. - fr_score f = - k) ?kept"
      unfolding r by (rule sort_key_stable)
    then show ?thesis by simp
  qed
  from m s st r show ?thesis by auto
qed

section \<open>Lemmas: the loading loops stay in budget\<close>

lemma file_tokens_update:
  "file_tokens (AList.update k v al) \<le> file_tokens al + estimateTokens v"
  by (induction al) (auto simp: file_tokens_def)

lemma in_budget_admit: "in_budget b acc \<Longrightarrow> in_budget b (admit b k c acc)"
proof -
  assume w: "in_budget b acc"
  obtain files used where acc: "acc = (files, used)" by (cases acc)
  from file_tokens_update [of k c files] w show ?thesis
    by (auto simp: in_budget_def admit_def acc)
qed

lemma in_budget_load_until_miss: "in_budget m acc \<Longrightarrow> in_budget m (load_until_miss m fs acc)"
proof (induction fs arbitrary: acc)
  case Nil
  then show ?case by simp
next
  case (Cons kv fs)
  obtain k c where kv: "kv = (k, c)" by (cases kv)
  obtain files t where acc: "acc = (files, t)" by (cases acc)
  show ?case
  proof (cases "int t + int (estimateTokens c) > m")
    case True
    with Cons.prems show ?thesis by (simp add: kv acc)
  next
    case False
    have "in_budget m (AList.update k c files, t + estimateTokens c)"
      using False Cons.prems file_tokens_update [of k c files] by (auto simp: in_budget_def acc)
    from Cons.IH [OF this] False show ?thesis by (simp add: kv acc)
  qed
qed

lemma in_budget_relevant_loop:
  "in_budget b acc \<Longrightarrow> in_budget b (relevant_loop e rootPath b fs acc)"
  by (induction fs arbitrary: acc) (auto simp: in_budget_admit split: option.splits)

lemma in_budget_mainDocs_loop:
  "in_budget b acc \<Longrightarrow> in_budget b (mainDocs_loop e rootPath b ds acc)"
  by (induction ds arbitrary: acc) (auto simp: in_budget_admit split: option.splits bool.splits)

lemma in_budget_docFiles_loop:
  "in_budget b acc \<Longrightarrow> in_budget b (docFiles_loop e rootPath b ds acc)"
  by (induction ds arbitrary: acc) (auto simp: in_budget_admit split: option.splits)

lemma in_budget_docsDirs_loop:
  "in_budget b acc \<Longrightarrow> in_budget b (docsDirs_loop e rootPath b ds acc)"
  by (induction ds arbitrary: acc) (auto simp: in_budget_docFiles_loop)

lemma in_budget_level_entries:
  "in_budget b acc \<Longrightarrow> level_entries e options rootPath b dir es acc = Inr acc' \<Longrightarrow> in_budget b acc'"
proof (induction es arbitrary: acc)
  case Nil
  then show ?case by simp
next
  case (Cons entry es)
  show ?case
  proof (cases "int (snd acc) \<ge> b")
    case True
    with Cons.prems show ?thesis by simp
  next
    case False
    let ?full = "fs_join e dir entry"
    consider (skip) "level_entries e options rootPath b dir es acc = Inr acc'"
      | (load) content where
          "level_entries e options rootPath b dir es
             (admit b (fs_relative e rootPath ?full) content acc) = Inr acc'"
      using Cons.prems(2) False
      by (auto simp: Let_def split: option.splits bool.splits)
    then show ?thesis
    proof cases
      case skip
      from Cons.IH [OF Cons.prems(1) this] show ?thesis .
    next
      case load
      from Cons.IH [OF in_budget_admit [OF Cons.prems(1)] this] show ?thesis .
    qed
  qed
qed

lemma in_budget_level_dirs:
  "in_budget b acc \<Longrightarrow> level_dirs e options rootPath b ds acc = Inr acc' \<Longrightarrow> in_budget b acc'"
proof (induction ds arbitrary: acc)
  case Nil
  then show ?case by simp
next
  case (Cons d ds)
  show ?case
  proof (cases "int (snd acc) \<ge> b")
    case True
    with Cons.prems show ?thesis by simp
  next
    case False
    with Cons.prems obtain es acc1 where
      "level_entries e options rootPath b d (sortEntries e es) acc = Inr acc1"
      and rest: "level_dirs e options rootPath b ds acc1 = Inr acc'"
      by (auto split: option.splits sum.splits)
    from in_budget_level_entries [OF Cons.prems(1) this(1)] have "in_budget b acc1" .
    from Cons.IH [OF this rest] show ?thesis .
  qed
qed

lemma add_loaded_fold:
  "snd (foldl add_loaded acc kvs) = snd acc + file_tokens kvs
   \<and> file_tokens (fst (foldl add_loaded acc kvs)) \<le> file_tokens (fst acc) + file_tokens kvs"
proof (induction kvs arbitrary: acc)
  case Nil
  then show ?case by (simp add: file_tokens_def)
next
  case (Cons kv kvs)
  have s: "snd (add_loaded acc kv) = snd acc + estimateTokens (snd kv)"
    and f: "fst (add_loaded acc kv) = AList.update (fst kv) (snd kv) (fst acc)"
    by (cases acc; simp add: add_loaded_def)+
  have ft: "file_tokens (kv # kvs) = estimateTokens (snd kv) + file_tokens kvs"
    by (simp add: file_tokens_def)
  from Cons.IH [of "add_loaded acc kv"] file_tokens_update [of "fst kv" "snd kv" "fst acc"]
  show ?case by (simp add: s f ft)
qed

lemma in_budget_add_loaded:
  assumes "in_budget m acc" and "in_budget (m - int (snd acc)) (loaded, used)"
  shows "in_budget m (foldl add_loaded acc loaded)"
proof -
  from add_loaded_fold [of acc loaded] assms show ?thesis
    by (auto simp: in_budget_def)
qed

lemma in_budget_empty: "0 \<le> b \<Longrightarrow> in_budget b ([], 0)"
  by (simp add: in_budget_def file_tokens_def)

lemma loadRelevantFiles_within:
  assumes "loadRelevantFiles e rootPath query b existing = Inr loaded" and "0 \<le> b"
  shows "\<exists>used. in_budget b (loaded, used)"
proof -
  from assms(1) obtain scored where
    "loaded = fst (relevant_loop e rootPath b scored ([], 0))"
    unfolding loadRelevantFiles_def by (auto simp: Let_def split: sum.splits)
  moreover have "in_budget b (relevant_loop e rootPath b scored ([], 0))"
    by (rule in_budget_relevant_loop) (rule in_budget_empty [OF assms(2)])
  ultimately show ?thesis
    by (intro exI [of _ "snd (relevant_loop e rootPath b scored ([], 0))"]) simp
qed

lemma loadDocumentation_within:
  assumes "0 \<le> b"
  shows "\<exists>used. in_budget b (loadDocumentation e rootPath docsDirs b, used)"
proof -
  let ?acc = "docsDirs_loop e rootPath b docsDirs (mainDocs_loop e rootPath b mainDocs ([], 0))"
  have "in_budget b ?acc"
    by (intro in_budget_docsDirs_loop in_budget_mainDocs_loop in_budget_empty assms)
  then show ?thesis
    unfolding loadDocumentation_def by (intro exI [of _ "snd ?acc"]) simp
qed

lemma stage2_in_budget: "0 \<le> m \<Longrightarrow> in_budget m (stage2 e rootPath projectInfo m)"
  unfolding stage2_def by (intro in_budget_load_until_miss in_budget_empty)

lemma stage3_in_budget: "in_budget m acc \<Longrightarrow> in_budget m (stage3 e rootPath projectInfo m acc)"
  unfolding stage3_def by (simp add: in_budget_load_until_miss)

lemma stage4_in_budget:
  assumes "in_budget m acc" and "stage4 e rootPath options m acc = Inr acc'"
  shows "in_budget m acc'"
proof (cases "o_query options")
  case None
  with assms show ?thesis by (simp add: stage4_def)
next
  case (Some query)
  show ?thesis
  proof (cases "query \<noteq> [] \<and> real (snd acc) < real_of_int m * 0.9")
    case True
    with assms(2) Some obtain relevantFiles where
      l: "loadRelevantFiles e rootPath query (m - int (snd acc)) (fst acc) = Inr relevantFiles"
      and acc': "acc' = foldl add_loaded acc relevantFiles"
      unfolding stage4_def by (auto split: sum.splits)
    have "0 \<le> m - int (snd acc)" using assms(1) by (simp add: in_budget_def)
    from loadRelevantFiles_within [OF l this] obtain used where
      "in_budget (m - int (snd acc)) (relevantFiles, used)" ..
    from in_budget_add_loaded [OF assms(1) this] acc' show ?thesis by simp
  next
    case False
    with assms Some show ?thesis unfolding stage4_def by auto
  qed
qed

lemma stage5_in_budget:
  assumes "in_budget m acc"
  shows "in_budget m (stage5 e rootPath projectInfo m acc)"
proof (cases "real (snd acc) < real_of_int m * 0.95")
  case True
  have "0 \<le> m - int (snd acc)" using assms by (simp add: in_budget_def)
  from loadDocumentation_within [OF this] obtain used where
    "in_budget (m - int (snd acc))
       (loadDocumentation e rootPath (pi_docsDirs projectInfo) (m - int (snd acc)), used)" ..
  from in_budget_add_loaded [OF assms this] True show ?thesis by (simp add: stage5_def)
next
  case False
  with assms show ?thesis by (simp add: stage5_def)
qed

lemma progressive_within:
  assumes "progressive_loadContext e rootPath options = Inr ctx"
    and m: "0 \<le> or_default (o_maxTokens options) 8000"
  shows "in_budget (or_default (o_maxTokens options) 8000) (lc_files ctx, lc_totalTokens ctx)"
proof -
  let ?m = "or_default (o_maxTokens options) 8000"
  from assms(1) obtain projectInfo acc4 where
    a4: "stage4 e rootPath options ?m (stage3 e rootPath projectInfo ?m (stage2 e rootPath projectInfo ?m))
           = Inr acc4"
    and "lc_files ctx = fst (stage5 e rootPath projectInfo ?m acc4)"
    and "lc_totalTokens ctx = snd (stage5 e rootPath projectInfo ?m acc4)"
    unfolding progressive_loadContext_def by (auto simp: Let_def split: option.splits sum.splits)
  moreover have "in_budget ?m (stage5 e rootPath projectInfo ?m acc4)"
    by (intro stage5_in_budget stage4_in_budget [OF _ a4] stage3_in_budget stage2_in_budget m)
  ultimately show ?thesis by simp
qed

lemma focused_load_within:
  assumes "int (ld_totalTokens st) \<le> m" and "file_tokens (ld_files st) \<le> ld_totalTokens st"
  shows "int (ld_totalTokens (focused_load e rootPath m fs st)) \<le> m
     \<and> file_tokens (ld_files (focused_load e rootPath m fs st))
         \<le> ld_totalTokens (focused_load e rootPath m fs st)"
  using assms
proof (induction fs arbitrary: st)
  case Nil
  then show ?case by simp
next
  case (Cons f fs)
  show ?case
  proof (cases "int (ld_totalTokens st) \<ge> m")
    case True
    with Cons.prems show ?thesis by simp
  next
    case False
    let ?st1 = "st\<lparr>ld_log := ld_log st @ [ReadFile (path_join e rootPath (fr_path f))]\<rparr>"
    have st1: "int (ld_totalTokens ?st1) \<le> m" "file_tokens (ld_files ?st1) \<le> ld_totalTokens ?st1"
      using Cons.prems by simp_all
    show ?thesis
    proof (cases "fs_readFile e (path_join e rootPath (fr_path f))")
      case None
      with False Cons.IH [OF st1] show ?thesis by (simp add: Let_def)
    next
      case (Some content)
      show ?thesis
      proof (cases "int (ld_totalTokens st) + int (estimateTokens content) \<le> m")
        case True
        let ?st2 = "?st1\<lparr>ld_files := AList.update (fr_path f) content (ld_files ?st1),
            ld_relevance := AList.update (fr_path f) (fr_score f, fr_reason f) (ld_relevance ?st1),
            ld_totalTokens := ld_totalTokens ?st1 + estimateTokens content\<rparr>"
        have "int (ld_totalTokens ?st2) \<le> m" using True by simp
        moreover have "file_tokens (ld_files ?st2) \<le> ld_totalTokens ?st2"
          using file_tokens_update [of "fr_path f" content "ld_files st"] Cons.prems(2) by simp
        ultimately show ?thesis using Cons.IH [of ?st2] False Some True by (simp add: Let_def)
      next
        case no_fit: False
        with False Some Cons.IH [OF st1] show ?thesis by (simp add: Let_def)
      qed
    qed
  qed
qed

lemma focused_within:
  assumes "focused_loadContext e rootPath options = (Inr ctx, calls)"
    and m: "0 \<le> or_default (o_maxTokens options) 8000"
  shows "in_budget (or_default (o_maxTokens options) 8000) (lc_files ctx, lc_totalTokens ctx)"
proof -
  let ?m = "or_default (o_maxTokens options) 8000"
  from assms(1) obtain scoredFiles calls0 where
    "lc_files ctx = ld_files (focused_load e rootPath ?m scoredFiles
        \<lparr>ld_files = [], ld_relevance = [], ld_totalTokens = 0, ld_log = calls0\<rparr>)"
    "lc_totalTokens ctx = ld_totalTokens (focused_load e rootPath ?m scoredFiles
        \<lparr>ld_files = [], ld_relevance = [], ld_totalTokens = 0, ld_log = calls0\<rparr>)"
    unfolding focused_loadContext_def
    by (auto simp: Let_def split: if_splits sum.splits)
  moreover have "int (ld_totalTokens \<lparr>ld_files = [], ld_relevance = [], ld_totalTokens = 0, ld_log = calls0\<rparr>) \<le> ?m"
    using m by simp
  moreover have "file_tokens (ld_files \<lparr>ld_files = [], ld_relevance = [], ld_totalTokens = 0, ld_log = calls0\<rparr>)
      \<le> ld_totalTokens \<lparr>ld_files = [], ld_relevance = [], ld_totalTokens = 0, ld_log = calls0\<rparr>"
    by (simp add: file_tokens_def)
  ultimately show ?thesis
    using focused_load_within [of "\<lparr>ld_files = [], ld_relevance = [], ld_totalTokens = 0, ld_log = calls0\<rparr>"
        ?m e rootPath scoredFiles]
    by (simp add: in_budget_def)
qed

lemma loadFilesAtLevel_within:
  assumes "loadFilesAtLevel e options rootPath level b = Inr loaded" and "0 \<le> b"
  shows "\<exists>used. in_budget b (loaded, used)"
proof -
  from assms(1) obtain acc where
    l: "level_dirs e options rootPath b (getDirectoriesAtLevel e rootPath level) ([], 0) = Inr acc"
    and "loaded = fst acc"
    unfolding loadFilesAtLevel_def by (auto split: sum.splits)
  moreover from in_budget_level_dirs [OF in_budget_empty [OF assms(2)] l] have "in_budget b acc" .
  ultimately show ?thesis by (intro exI [of _ "snd acc"]) simp
qed

lemma add_level_in_budget:
  assumes "in_budget m (bs_files st, bs_totalTokens st)"
    and "in_budget (m - int (bs_totalTokens st)) (levelFiles, used)"
  shows "in_budget m (bs_files (add_level st level levelFiles),
                      bs_totalTokens (add_level st level levelFiles))"
  using add_loaded_fold [of "(bs_files st, 0)" levelFiles] assms
  by (auto simp: in_budget_def add_level_def Let_def)

lemma breadth_levels_within:
  assumes "breadth_levels e options rootPath m d level st = Inr st'"
    and "in_budget m (bs_files st, bs_totalTokens st)"
  shows "in_budget m (bs_files st', bs_totalTokens st')"
  using assms
proof (induction e options rootPath m d level st rule: breadth_levels.induct)
  case (1 e options rootPath maxTokens maxDepth level st)
  show ?case
  proof (cases "int level \<le> maxDepth \<and> int (bs_totalTokens st) < maxTokens")
    case False
    with "1.prems" show ?thesis by (simp add: breadth_levels.simps)
  next
    case True
    with "1.prems"(1) obtain levelFiles where
      l: "loadFilesAtLevel e options rootPath level (maxTokens - int (bs_totalTokens st)) = Inr levelFiles"
      and next_level: "breadth_levels e options rootPath maxTokens maxDepth (level + 1)
             (add_level st level levelFiles) = Inr st'"
      by (subst (asm) breadth_levels.simps) (auto split: sum.splits)
    have "0 \<le> maxTokens - int (bs_totalTokens st)" using True by simp
    from loadFilesAtLevel_within [OF l this] obtain used where
      "in_budget (maxTokens - int (bs_totalTokens st)) (levelFiles, used)" ..
    from add_level_in_budget [OF "1.prems"(2) this]
    have "in_budget maxTokens (bs_files (add_level st level levelFiles),
                               bs_totalTokens (add_level st level levelFiles))" .
    from "1.IH" [OF True l next_level this] show ?thesis .
  qed
qed

lemma breadth_within:
  assumes "breadth_loadContext e rootPath options = Inr ctx"
    and m: "0 \<le> or_default (o_maxTokens options) 8000"
  shows "in_budget (or_default (o_maxTokens options) 8000) (lc_files ctx, lc_totalTokens ctx)"
proof -
  let ?m = "or_default (o_maxTokens options) 8000"
  let ?st0 = "\<lparr>bs_files = [], bs_totalTokens = 0, bs_levelStats = []\<rparr>"
  from assms(1) obtain st where
    l: "breadth_levels e options rootPath ?m (or_default (o_maxDepth options) 5) 0 ?st0 = Inr st"
    and "lc_files ctx = bs_files st" "lc_totalTokens ctx = bs_totalTokens st"
    unfolding breadth_loadContext_def by (auto split: sum.splits)
  moreover have "in_budget ?m (bs_files ?st0, bs_totalTokens ?st0)"
    using m by (simp add: in_budget_def file_tokens_def)
  from breadth_levels_within [OF l this] have "in_budget ?m (bs_files st, bs_totalTokens st)" .
  ultimately show ?thesis by simp
qed

section \<open>The runs on the small project\<close>

lemma demo_env_sel:
  "fs_readFile demo_env = map_of demo_files"
  "fs_listDirectory demo_env = map_of demo_dirs"
  "fs_getStats demo_env = (\<lambda>p. case map_of demo_files p of
          Some c \<Rightarrow> Some \<lparr>stat_size = length c, stat_modifiedAt = 0, stat_isDirectory = False\<rparr>
        | None \<Rightarrow> (case map_of demo_dirs p of
            Some es \<Rightarrow> Some \<lparr>stat_size = 0, stat_modifiedAt = 0, stat_isDirectory = True\<rparr>
          | None \<Rightarrow> None))"
  "fs_isFile demo_env = (\<lambda>p. Some (map_of demo_files p \<noteq> None))"
  "fs_isDirectory demo_env = (\<lambda>p. Some (map_of demo_dirs p \<noteq> None))"
  "fs_exists demo_env = (\<lambda>p. Some (\<not> (map_of demo_files p = None \<and> map_of demo_dirs p = None)))"
  "fs_join demo_env = (\<lambda>a b. a @ ''/'' @ b)"
  "fs_relative demo_env = (\<lambda>a b. drop (length a + 1) b)"
  "fs_basename demo_env = demo_basename"
  "path_sep demo_env = CHR ''/''"
  "path_basename demo_env = demo_basename"
  "path_extname demo_env = demo_extname"
  "path_join demo_env = (\<lambda>a b. a @ ''/'' @ b)"
  "path_relative demo_env = (\<lambda>a b. drop (length a + 1) b)"
  "date_now demo_env = 0"
  "locale_compare demo_env = (\<lambda>a b. 0)"
  "scorer_matchesPattern demo_env = (\<lambda>p g. Some (str_includes p g))"
  "focused_matchesPattern demo_env = (\<lambda>p g. Some (str_includes p g))"
  "breadth_matchesPattern demo_env = (\<lambda>p g. Some (str_includes p g))"
  "analyzeProject demo_env = (\<lambda>p. Some \<lparr>pi_entryPoints = [''src/index.ts''], pi_configFiles = [],
                                   pi_docsDirs = []\<rparr>)"
  "sort_configs demo_env = (\<lambda>cs. cs)"
  "sort_entries demo_env = (\<lambda>es. es)"
  by (simp_all add: demo_env_def)

lemma demo_options_sel:
  "o_maxTokens demo_options = None" "o_maxDepth demo_options = None" "o_fileTypes demo_options = None"
  "o_includePatterns demo_options = None" "o_excludePatterns demo_options = None"
  "o_query demo_options = None"
  by (simp_all add: demo_options_def)

lemma demo_lookups:
  "map_of demo_files ''/p/README.md'' = Some ''# Demo''"
  "map_of demo_files ''/p/package.json'' = Some ''{}''"
  "map_of demo_files ''/p/src/index.ts'' = Some ''export const x = 1''"
  "map_of demo_files ''/p/readme.md'' = None"
  "map_of demo_files ''/p/tsconfig.json'' = None"
  "map_of demo_files ''/p/.env.example'' = None"
  "map_of demo_files ''/p/docker-compose.yml'' = None"
  "map_of demo_files ''/p/CONTRIBUTING.md'' = None"
  "map_of demo_files ''/p/API.md'' = None"
  "map_of demo_files ''/p/ARCHITECTURE.md'' = None"
  "map_of demo_files ''/p/src'' = None"
  "map_of demo_files ''/p'' = None"
  "map_of demo_dirs ''/p'' = Some [''src'', ''package.json'', ''README.md'']"
  "map_of demo_dirs ''/p/src'' = Some [''index.ts'']"
  "map_of demo_dirs ''/p/README.md'' = None"
  "map_of demo_dirs ''/p/package.json'' = None"
  "map_of demo_dirs ''/p/src/index.ts'' = None"
  "map_of demo_dirs ''/p/readme.md'' = None"
  "map_of demo_dirs ''/p/tsconfig.json'' = None"
  "map_of demo_dirs ''/p/.env.example'' = None"
  "map_of demo_dirs ''/p/docker-compose.yml'' = None"
  "map_of demo_dirs ''/p/CONTRIBUTING.md'' = None"
  "map_of demo_dirs ''/p/API.md'' = None"
  "map_of demo_dirs ''/p/ARCHITECTURE.md'' = None"
  by (simp_all add: demo_files_def demo_dirs_def)

lemma demo_tokens:
  "estimateTokens ''# Demo'' = 2" "estimateTokens ''{}'' = 1" "estimateTokens ''export const x = 1'' = 5"
  by (simp_all add: estimateTokens_def ceil_div_def)

lemma demo_core:
  "loadCoreFiles demo_env ''/p'' [''src/index.ts''] =
     [(''src/index.ts'', ''export const x = 1''), (''README.md'', ''# Demo''), (''package.json'', ''{}'')]"
  by (simp add: loadCoreFiles_def load_entryPoint_def load_corePattern_def corePatterns_def
      demo_env_sel demo_lookups)

lemma demo_docs:
  "loadDocumentation demo_env ''/p'' [] 7992 = [(''README.md'', ''# Demo'')]"
  by (simp add: loadDocumentation_def mainDocs_def admit_def demo_env_sel demo_lookups demo_tokens)

lemma demo_progressive:
  "progressive_loadContext demo_env ''/p'' demo_options =
     Inr \<lparr>lc_files = [(''src/index.ts'', ''export const x = 1''), (''README.md'', ''# Demo''),
                      (''package.json'', ''{}'')],
          lc_metadata = ProgressiveMeta \<lparr>pi_entryPoints = [''src/index.ts''], pi_configFiles = [],
                                          pi_docsDirs = []\<rparr>,
          lc_totalTokens = 10, lc_strategy = ''progressive''\<rparr>"
  by (simp add: progressive_loadContext_def stage2_def stage3_def stage3_runs_def stage4_def stage5_def
      loadConfigFiles_def add_loaded_def or_default_def demo_options_sel demo_env_sel
      demo_core demo_docs demo_tokens)

lemma demo_sortEntries:
  "sortEntries demo_env [''src'', ''package.json'', ''README.md''] = [''README.md'', ''package.json'', ''src'']"
  "sortEntries demo_env [''index.ts''] = [''index.ts'']"
  by (simp_all add: sortEntries_def js_sort_def priorityOf_def priorities_def prototypeMembers_def
      demo_env_sel)

lemma demo_dirs_at:
  "getDirectoriesAtLevel demo_env ''/p'' 0 = [''/p'']"
  "getDirectoriesAtLevel demo_env ''/p'' 1 = [''/p/src'']"
  "getDirectoriesAtLevel demo_env ''/p'' 2 = []"
  "getDirectoriesAtLevel demo_env ''/p'' 3 = []"
  "getDirectoriesAtLevel demo_env ''/p'' 4 = []"
  "getDirectoriesAtLevel demo_env ''/p'' 5 = []"
  by (simp_all add: getDirectoriesAtLevel_def findDirs.simps isIgnoredDirectory_def ignoredDirectories_def
      startsWith_def demo_env_sel demo_lookups)

lemma demo_include:
  assumes "o_fileTypes options = None" and "o_includePatterns options = None"
  shows "shouldIncludeFile demo_env options ''README.md'' = Some True"
    and "shouldIncludeFile demo_env options ''package.json'' = Some True"
    and "shouldIncludeFile demo_env options ''index.ts'' = Some True"
  using assms
  by (simp_all add: shouldIncludeFile_def lastExtension_def commonExtensions_def
      demo_env_sel demo_basename_def toLowerCase_def lower_def is_upper_def)

lemma demo_exclude:
  assumes "o_excludePatterns options = None"
  shows "breadth_shouldExclude demo_env options ''README.md'' = Some False"
    and "breadth_shouldExclude demo_env options ''package.json'' = Some False"
    and "breadth_shouldExclude demo_env options ''index.ts'' = Some False"
    and "breadth_shouldExclude demo_env options ''src'' = Some False"
  using assms
  by (simp_all add: breadth_shouldExclude_def isIgnoredDirectory_def ignoredDirectories_def
      startsWith_def)

lemma demo_level0:
  assumes "o_fileTypes options = None" and "o_includePatterns options = None"
    and "o_excludePatterns options = None"
  shows "loadFilesAtLevel demo_env options ''/p'' 0 8000
     = Inr [(''README.md'', ''# Demo''), (''package.json'', ''{}'')]"
  by (simp add: loadFilesAtLevel_def demo_dirs_at demo_sortEntries demo_include [OF assms(1,2)]
      demo_exclude [OF assms(3)] admit_def demo_env_sel demo_lookups demo_tokens)

lemma demo_level1:
  assumes "o_fileTypes options = None" and "o_includePatterns options = None"
    and "o_excludePatterns options = None"
  shows "loadFilesAtLevel demo_env options ''/p'' 1 7997 = Inr [(''src/index.ts'', ''export const x = 1'')]"
  by (simp add: loadFilesAtLevel_def demo_dirs_at demo_sortEntries demo_include [OF assms(1,2)]
      demo_exclude [OF assms(3)] admit_def demo_env_sel demo_lookups demo_tokens del: One_nat_def)

lemma demo_level_rest:
  "loadFilesAtLevel demo_env options ''/p'' 2 7992 = Inr []"
  "loadFilesAtLevel demo_env options ''/p'' 3 7992 = Inr []"
  "loadFilesAtLevel demo_env options ''/p'' 4 7992 = Inr []"
  "loadFilesAtLevel demo_env options ''/p'' 5 7992 = Inr []"
  by (simp_all add: loadFilesAtLevel_def demo_dirs_at)

lemma demo_breadth_run:
  assumes "or_default (o_maxTokens options) 8000 = 8000" and "o_maxDepth options = None"
    and "o_fileTypes options = None" and "o_includePatterns options = None"
    and "o_excludePatterns options = None"
  shows "breadth_loadContext demo_env ''/p'' options =
     Inr \<lparr>lc_files = [(''README.md'', ''# Demo''), (''package.json'', ''{}''),
                      (''src/index.ts'', ''export const x = 1'')],
          lc_metadata = BreadthMeta [(0, 2, 3), (1, 1, 5)],
          lc_totalTokens = 8, lc_strategy = ''breadth-first''\<rparr>"
  by (simp add: breadth_loadContext_def breadth_levels.simps add_level_def add_loaded_def assms(1,2)
      or_default_def [of None] demo_level0 [OF assms(3-5)] demo_level1 [OF assms(3-5)]
      demo_level_rest demo_tokens Let_def del: One_nat_def)

lemma demo_breadth:
  "breadth_loadContext demo_env ''/p'' demo_options =
     Inr \<lparr>lc_files = [(''README.md'', ''# Demo''), (''package.json'', ''{}''),
                      (''src/index.ts'', ''export const x = 1'')],
          lc_metadata = BreadthMeta [(0, 2, 3), (1, 1, 5)],
          lc_totalTokens = 8, lc_strategy = ''breadth-first''\<rparr>"
  by (rule demo_breadth_run) (simp_all add: or_default_def demo_options_def)

lemma demo_breadth_zero:
  "breadth_loadContext demo_env ''/p'' demo_zero =
     Inr \<lparr>lc_files = [(''README.md'', ''# Demo''), (''package.json'', ''{}''),
                      (''src/index.ts'', ''export const x = 1'')],
          lc_metadata = BreadthMeta [(0, 2, 3), (1, 1, 5)],
          lc_totalTokens = 8, lc_strategy = ''breadth-first''\<rparr>"
  by (rule demo_breadth_run) (simp_all add: or_default_def demo_zero_def demo_options_def)

lemma demo_breadth_negative:
  "breadth_loadContext demo_env ''/p'' demo_negative =
     Inr \<lparr>lc_files = [], lc_metadata = BreadthMeta [], lc_totalTokens = 0,
          lc_strategy = ''breadth-first''\<rparr>"
  by (simp add: breadth_loadContext_def breadth_levels.simps or_default_def demo_negative_def
      demo_options_def)

lemma demo_focus_sel:
  "o_maxTokens demo_focus = None" "o_maxDepth demo_focus = None" "o_fileTypes demo_focus = None"
  "o_includePatterns demo_focus = Some [''src'']" "o_excludePatterns demo_focus = None"
  "o_query demo_focus = None"
  by (simp_all add: demo_focus_def demo_options_def)

lemma demo_walk: "findAllFiles demo_env demo_focus ''/p'' =
    \<lparr>ws_visited = {''/p/src'', ''/p''}, ws_files = [''src/index.ts'', ''package.json'', ''README.md''],
     ws_log = [ListDirectory ''/p'', GetStats ''/p/src'', ListDirectory ''/p/src'',
       GetStats ''/p/src/index.ts'', GetStats ''/p/package.json'', GetStats ''/p/README.md'']\<rparr>"
  by (simp add: findAllFiles_def focused_walk.simps demo_env_sel demo_focus_sel or_default_def Let_def
      focused_shouldExclude_def focused_defaultExcludes_def matchesFileType_def focused_defaultTypes_def
      endsWith_def demo_files_def demo_dirs_def)

lemma demo_keywords:
  "keywordScore ''src'' = 0" "keywordScore ''index.ts'' = 10"
  "keywordScore ''package.json'' = 0" "keywordScore ''readme.md'' = 0"
  by (simp_all add: keywordScore_def keywordWeights_def startsWith_def)

lemma demo_factors:
  "calculateRelevance demo_env ''src/index.ts'' (Some ''/p'') =
     \<lparr>pathScore = 70, nameScore = 90, typeScore = 90, depthScore = 100, sizeScore = 50, recencyScore = 50\<rparr>"
  "calculateRelevance demo_env ''package.json'' (Some ''/p'') =
     \<lparr>pathScore = 50, nameScore = 50, typeScore = 60, depthScore = 110, sizeScore = 50, recencyScore = 50\<rparr>"
  "calculateRelevance demo_env ''README.md'' (Some ''/p'') =
     \<lparr>pathScore = 50, nameScore = 50, typeScore = 50, depthScore = 110, sizeScore = 50, recencyScore = 50\<rparr>"
  by (simp_all add: calculateRelevance_def calculatePathScore_def calculateNameScore_def calculateTypeScore_def
      calculateDepthScore_def calculateSizeScore_def calculateRecencyScore_def demo_env_sel demo_env_def demo_keywords
      toLowerCase_def lower_def is_upper_def clamp100_def demo_basename_def demo_extname_def
      typeScores_def demo_files_def demo_dirs_def Let_def startsWith_def)

lemma demo_focus_criteria:
  "c_query (focusedCriteria ''/p'' demo_focus) = None"
  "c_contextPath (focusedCriteria ''/p'' demo_focus) = Some ''/p''"
  "c_fileTypes (focusedCriteria ''/p'' demo_focus) = None"
  "c_includePatterns (focusedCriteria ''/p'' demo_focus) = Some [''src'']"
  "c_excludePatterns (focusedCriteria ''/p'' demo_focus) = None"
  "c_threshold (focusedCriteria ''/p'' demo_focus) = Some 30"
  "c_weights (focusedCriteria ''/p'' demo_focus) =
     Some \<lparr>w_pathScore = 2, w_nameScore = 2.5, w_typeScore = 1,
           w_depthScore = 0.5, w_sizeScore = 0.3, w_recencyScore = 0.2, w_queryScore = Some 3\<rparr>"
  by (simp_all add: focusedCriteria_def demo_focus_sel)

lemma demo_includes:
  "str_includes ''src/index.ts'' ''src''" "\<not> str_includes ''package.json'' ''src''"
  "\<not> str_includes ''README.md'' ''src''"
  by (simp_all add: startsWith_def)

lemma demo_scoreFile:
  "scoreFile demo_env ''src/index.ts'' (focusedCriteria ''/p'' demo_focus) = Inr demo_index"
  "scoreFile demo_env ''package.json'' (focusedCriteria ''/p'' demo_focus) = Inr demo_package"
  "scoreFile demo_env ''README.md'' (focusedCriteria ''/p'' demo_focus) = Inr demo_readme"
  by (simp_all add: scoreFile_def demo_focus_criteria demo_factors demo_env_sel startsWith_def
      clamp100_def Let_def demo_index_def demo_package_def demo_readme_def)

lemma demo_scoreFiles:
  "scoreFiles demo_env [''src/index.ts'', ''package.json'', ''README.md''] (focusedCriteria ''/p'' demo_focus)
     = Inr [demo_index, demo_package, demo_readme]"
  by (simp add: scoreFiles_def demo_scoreFile demo_focus_criteria js_sort_def Let_def
      demo_index_def demo_package_def demo_readme_def)

lemma demo_boost:
  "boost demo_env demo_index [''src''] =
     Inr (demo_index\<lparr>fr_score := 150, fr_reason := fr_reason demo_index @ '', matches pattern: src''\<rparr>)"
  "boost demo_env demo_package [''src''] = Inr demo_package"
  "boost demo_env demo_readme [''src''] = Inr demo_readme"
  by (simp_all add: demo_env_sel startsWith_def demo_index_def demo_package_def demo_readme_def)

lemma demo_scoreFilesByFocus:
  "scoreFilesByFocus demo_env [''src/index.ts'', ''package.json'', ''README.md''] ''/p'' demo_focus
     = Inr [demo_index\<lparr>fr_score := 150, fr_reason := fr_reason demo_index @ '', matches pattern: src''\<rparr>,
            demo_package, demo_readme]"
  by (simp add: scoreFilesByFocus_def demo_scoreFiles demo_focus_sel js_sort_def
      demo_env_sel startsWith_def demo_index_def demo_package_def demo_readme_def)

lemma demo_focused_run:
  "fst (focused_loadContext demo_env ''/p'' demo_focus) =
     Inr \<lparr>lc_files = [(''src/index.ts'', ''export const x = 1''), (''package.json'', ''{}''), (''README.md'', ''# Demo'')],
          lc_metadata = FocusedMeta
            [(''src/index.ts'', 150, fr_reason demo_index @ '', matches pattern: src''),
             (''package.json'', 73, fr_reason demo_package),
             (''README.md'', 71, fr_reason demo_readme)]
            \<lparr>fsum_query = None, fsum_patterns = Some [''src''], fsum_filesFound = 3, fsum_filesLoaded = 3,
             fsum_averageScore = Num 98\<rparr>,
          lc_totalTokens = 8, lc_strategy = ''focused''\<rparr>"
  by (simp add: focused_loadContext_def demo_walk demo_scoreFilesByFocus demo_focus_sel no_query_def
      no_patterns_def or_default_def Let_def demo_env_sel demo_lookups demo_tokens js_div_def
      demo_index_def demo_package_def demo_readme_def)

lemma demo_threshold_sel:
  "c_query demo_threshold = None" "c_contextPath demo_threshold = None"
  "c_fileTypes demo_threshold = None" "c_includePatterns demo_threshold = Some [''src'']"
  "c_excludePatterns demo_threshold = None" "c_threshold demo_threshold = Some 75"
  "c_weights demo_threshold = None"
  by (simp_all add: demo_threshold_def)

lemma demo_factors_plain:
  "calculateRelevance demo_env ''src/index.ts'' None =
     \<lparr>pathScore = 70, nameScore = 90, typeScore = 90, depthScore = 90, sizeScore = 50, recencyScore = 50\<rparr>"
  "calculateRelevance demo_env ''package.json'' None =
     \<lparr>pathScore = 50, nameScore = 50, typeScore = 60, depthScore = 90, sizeScore = 50, recencyScore = 50\<rparr>"
  "calculateRelevance demo_env ''README.md'' None =
     \<lparr>pathScore = 50, nameScore = 50, typeScore = 50, depthScore = 90, sizeScore = 50, recencyScore = 50\<rparr>"
  by (simp_all add: calculateRelevance_def calculatePathScore_def calculateNameScore_def calculateTypeScore_def
      calculateDepthScore_def calculateSizeScore_def calculateRecencyScore_def demo_env_sel demo_env_def demo_keywords
      toLowerCase_def lower_def is_upper_def clamp100_def demo_basename_def demo_extname_def
      typeScores_def demo_files_def demo_dirs_def Let_def startsWith_def)

lemma demo_scoreFile_plain:
  "scoreFile demo_env ''src/index.ts'' demo_threshold =
     Inr \<lparr>fr_path = ''src/index.ts'', fr_score = 100,
          fr_factors = calculateRelevance demo_env ''src/index.ts'' None,
          fr_reason = generateReason (calculateRelevance demo_env ''src/index.ts'' None) 525\<rparr>"
  "scoreFile demo_env ''package.json'' demo_threshold =
     Inr \<lparr>fr_path = ''package.json'', fr_score = 379 / 5,
          fr_factors = calculateRelevance demo_env ''package.json'' None,
          fr_reason = generateReason (calculateRelevance demo_env ''package.json'' None) (379 / 5)\<rparr>"
  "scoreFile demo_env ''README.md'' demo_threshold =
     Inr \<lparr>fr_path = ''README.md'', fr_score = 367 / 5,
          fr_factors = calculateRelevance demo_env ''README.md'' None,
          fr_reason = generateReason (calculateRelevance demo_env ''README.md'' None) (367 / 5)\<rparr>"
  by (simp_all add: scoreFile_def demo_threshold_sel demo_factors_plain demo_env_sel startsWith_def
      clamp100_def Let_def getDefaultWeights_def)

lemma demo_scoreFiles_plain:
  "scoreFiles demo_env demo_paths demo_threshold =
     Inr [\<lparr>fr_path = ''src/index.ts'', fr_score = 100,
           fr_factors = calculateRelevance demo_env ''src/index.ts'' None,
           fr_reason = generateReason (calculateRelevance demo_env ''src/index.ts'' None) 525\<rparr>,
          \<lparr>fr_path = ''package.json'', fr_score = 379 / 5,
           fr_factors = calculateRelevance demo_env ''package.json'' None,
           fr_reason = generateReason (calculateRelevance demo_env ''package.json'' None) (379 / 5)\<rparr>]"
  by (simp add: scoreFiles_def demo_paths_def demo_scoreFile_plain demo_threshold_sel js_sort_def Let_def)

section \<open>Lemmas: the summaries\<close>

lemma summarize_loop_pieces:
  "summarize_loop m ss result cur =
     foldl append_piece result
       (spec_pieces (\<lambda>s. summarizeSection s False) (\<lambda>s. summarizeSection s True) m cur ss)"
  by (induction ss arbitrary: result cur) (simp_all add: Let_def not_le)

lemma trim_has_char:
  assumes "trim x \<noteq> []"
  shows "\<exists>c \<in> set (trim x). \<not> is_space c"
proof -
  let ?d = "dropWhile is_space (rev (dropWhile is_space x))"
  from assms have d: "?d \<noteq> []" by (simp add: trim_def)
  then have "\<not> is_space (hd ?d)" by (rule hd_dropWhile)
  moreover have "hd ?d \<in> set ?d" using d by simp
  ultimately show ?thesis by (auto simp: trim_def)
qed

lemma char_trim:
  assumes "c \<in> set l" and "\<not> is_space c"
  shows "trim l \<noteq> []"
proof -
  from assms have "dropWhile is_space l \<noteq> []" by (auto simp: dropWhile_eq_Nil_conv)
  moreover have "\<not> is_space (hd (dropWhile is_space l))"
    using calculation by (rule hd_dropWhile)
  ultimately have "\<exists>c \<in> set (rev (dropWhile is_space l)). \<not> is_space c"
    by (metis hd_in_set set_rev)
  then have "dropWhile is_space (rev (dropWhile is_space l)) \<noteq> []"
    by (auto simp: dropWhile_eq_Nil_conv)
  then show ?thesis by (simp add: trim_def)
qed

lemma split_on_char:
  "c \<in> set s \<Longrightarrow> c \<noteq> sep \<Longrightarrow> \<exists>l \<in> set (split_on sep s). c \<in> set l"
proof (induction s)
  case Nil
  then show ?case by simp
next
  case (Cons x xs)
  show ?case
  proof (cases "c = x")
    case True
    with Cons.prems show ?thesis by (auto split: list.splits)
  next
    case False
    with Cons.prems have "c \<in> set xs" by simp
    from Cons.IH [OF this Cons.prems(2)] show ?thesis
      by (auto split: list.splits)
  qed
qed

lemma nonblank_lines_nonempty:
  assumes "trim x \<noteq> []"
  shows "nonblank_lines (trim x) \<noteq> []"
proof -
  from trim_has_char [OF assms] obtain c where c: "c \<in> set (trim x)" "\<not> is_space c" by blast
  then have "c \<noteq> NL" by (auto simp: is_space_def)
  from split_on_char [OF c(1) this] obtain l where "l \<in> set (split_on NL (trim x))" "c \<in> set l"
    by blast
  with c(2) char_trim show ?thesis
    by (auto simp: nonblank_lines_def filter_empty_conv)
qed

lemma nonblank_lines_lines: "l \<in> set (nonblank_lines s) \<Longrightarrow> l \<noteq> []"
  by (auto simp: nonblank_lines_def trim_def)

lemma summary_nonempty:
  assumes "trim x \<noteq> []"
  shows "summarizeSection (trim x) False \<noteq> []"
proof (cases "isCodeBlock (trim x)")
  case True
  then show ?thesis by (simp add: summarizeSection_def)
next
  case False
  from nonblank_lines_nonempty [OF assms] obtain l ls where
    ls: "nonblank_lines (trim x) = l # ls" by (cases "nonblank_lines (trim x)") auto
  then have "l \<noteq> []" using nonblank_lines_lines [of l "trim x"] by simp
  with ls False show ?thesis by (simp add: summarizeSection_def join_Cons)
qed

lemma short_nonempty: "summarizeSection s True \<noteq> []"
  by (simp add: summarizeSection_def Let_def)

lemma push_section_trimmed:
  "list_all (\<lambda>s. \<exists>x. s = trim x \<and> trim x \<noteq> []) sections
   \<Longrightarrow> list_all (\<lambda>s. \<exists>x. s = trim x \<and> trim x \<noteq> []) (push_section sections cur)"
  by (auto simp: push_section_def)

lemma foldl_split_step_trimmed:
  "list_all (\<lambda>s. \<exists>x. s = trim x \<and> trim x \<noteq> []) (st_sections st)
   \<Longrightarrow> list_all (\<lambda>s. \<exists>x. s = trim x \<and> trim x \<noteq> []) (st_sections (foldl split_step st ls))"
proof (induction ls arbitrary: st)
  case Nil
  then show ?case by simp
next
  case (Cons l ls)
  have "list_all (\<lambda>s. \<exists>x. s = trim x \<and> trim x \<noteq> []) (st_sections (split_step st l))"
    using Cons.prems push_section_trimmed [of "st_sections st" "st_current st"]
    by (simp add: split_step_def Let_def)
  from Cons.IH [OF this] show ?case by simp
qed

lemma sections_trimmed:
  "list_all (\<lambda>s. \<exists>x. s = trim x \<and> trim x \<noteq> []) (splitIntoSections content)"
  unfolding splitIntoSections_def Let_def
  by (rule push_section_trimmed, rule foldl_split_step_trimmed) simp

lemma spec_pieces_nonempty:
  assumes "list_all (\<lambda>s. full s \<noteq> []) ss" and "\<And>s. short s \<noteq> []"
  shows "list_all (\<lambda>p. p \<noteq> []) (spec_pieces full short m cur ss)"
  using assms(1) by (induction ss arbitrary: cur) (simp_all add: assms(2))

lemma spec_pieces_cong:
  assumes "list_all (\<lambda>s. full s = full' s \<and> short s = short' s) ss"
  shows "spec_pieces full short m cur ss = spec_pieces full' short' m cur ss"
  using assms by (induction ss arbitrary: cur) simp_all

lemma keep_lines_take:
  "keep_lines n ls = take (3 - n) ls @ filter isSectionMarker (drop (3 - n) ls)"
proof (induction ls arbitrary: n)
  case Nil
  show ?case by simp
next
  case (Cons l ls)
  show ?case
  proof (cases "n < 3")
    case True
    then have "3 - n = Suc (3 - (n + 1))" by simp
    with True Cons.IH [of "n + 1"] show ?thesis by simp
  next
    case False
    with Cons.IH [of n] Cons.IH [of "n + 1"] show ?thesis by simp
  qed
qed

lemma regular_summary: "summarizeSection s False = spec_regular s"
  by (simp add: summarizeSection_def spec_regular_def Let_def keep_lines_take [of 0, simplified]
      split: option.splits)

lemma short_summary:
  assumes "nonblank_lines s \<noteq> []"
  shows "summarizeSection s True = spec_short s"
  using assms by (cases "nonblank_lines s") (simp_all add: summarizeSection_def spec_short_def Let_def)

lemma summarizeContent_spec:
  "summarizeContent content maxTokens = spec_summarize spec_regular spec_short content maxTokens"
proof -
  let ?ss = "sort_key (\<lambda>s. - calculateSectionImportance s) (splitIntoSections content)"
  have sections: "list_all (\<lambda>s. \<exists>x. s = trim x \<and> trim x \<noteq> []) ?ss"
    using sections_trimmed [of content] by (simp add: list_all_iff)
  have "list_all (\<lambda>s. summarizeSection s False \<noteq> []) ?ss"
    using sections summary_nonempty by (auto simp: list_all_iff)
  then have "list_all (\<lambda>p. p \<noteq> [])
      (spec_pieces (\<lambda>s. summarizeSection s False) (\<lambda>s. summarizeSection s True) maxTokens 0 ?ss)"
    by (rule spec_pieces_nonempty) (rule short_nonempty)
  from foldl_append_piece_join [OF this]
  have "summarizeContent content maxTokens = join [NL, NL]
      (spec_pieces (\<lambda>s. summarizeSection s False) (\<lambda>s. summarizeSection s True) maxTokens 0 ?ss)"
    by (simp add: summarizeContent_def summarize_loop_pieces prioritizeSections_def js_sort_desc)
  moreover have "list_all (\<lambda>s. summarizeSection s False = spec_regular s
      \<and> summarizeSection s True = spec_short s) ?ss"
    using sections nonblank_lines_nonempty regular_summary short_summary
    by (auto simp: list_all_iff)
  ultimately show ?thesis
    by (simp add: spec_summarize_def spec_pieces_cong)
qed

lemma nonblank_lines_no_NL: "l \<in> set (nonblank_lines s) \<Longrightarrow> NL \<notin> set l"
  by (auto simp: nonblank_lines_def dest: split_on_no_sep)

lemma spec_short_one_line: "NL \<notin> set (spec_short s)"
proof -
  have a: "NL \<notin> set (case ls of [] \<Rightarrow> [] | line # _ \<Rightarrow> line)"
    if "\<And>l. l \<in> set ls \<Longrightarrow> NL \<notin> set l" for ls :: "string list"
    using that by (cases ls) auto
  define first where "first = (case nonblank_lines s of [] \<Rightarrow> [] | line # _ \<Rightarrow> line)"
  define code where "code = (case filter (\<lambda>line. \<not> startsWith line ''```'') (nonblank_lines s) of
      [] \<Rightarrow> [] | line # _ \<Rightarrow> line)"
  have "NL \<notin> set first"
    unfolding first_def by (rule a) (rule nonblank_lines_no_NL)
  then have f: "NL \<notin> set (take 100 first)" by (auto dest: in_set_takeD)
  have "NL \<notin> set code"
    unfolding code_def by (rule a) (auto dest: nonblank_lines_no_NL)
  then have c: "NL \<notin> set (take 50 code)" by (auto dest: in_set_takeD)
  have "spec_short s = (if isCodeBlock s then ''[Code block: '' @ take 50 code @ ''...]''
      else take 100 first @ ''...'')"
    by (simp add: spec_short_def first_def code_def)
  with f c show ?thesis by simp
qed

lemma demo_lines_sections: "splitIntoSections demo_lines = [demo_lines]"
  by (simp add: splitIntoSections_def demo_lines_def split_step_def push_section_def startsWith_def
      isSectionMarker_def header_upto_def rule_of_def trim_def is_space_def Let_def)

lemma demo_lines_summary:
  "summarizeSection demo_lines False = [CHR ''a'', NL, CHR ''b'', NL, CHR ''c'']"
  "summarizeSection demo_lines True = ''a...''"
  by (simp_all add: summarizeSection_def demo_lines_def isCodeBlock_def startsWith_def nonblank_lines_def
      isSectionMarker_def header_upto_def rule_of_def trim_def is_space_def Let_def)

lemma demo_lines_tokens:
  "estimateTokenCount demo_lines = 4"
  "estimateTokenCount [CHR ''a'', NL, CHR ''b'', NL, CHR ''c''] = 3"
  "estimateTokenCount ''a...'' = 2"
  by (simp_all add: estimateTokenCount_def demo_lines_def split_ws_def wordTokens_def isCodeToken_def
      is_punctuation_def ceil_div_def is_space_def is_upper_def is_lower_def is_digit_def is_word_def Let_def)

lemma demo_lines_spec:
  "spec_short demo_lines = ''a...''"
  by (simp add: spec_short_def demo_lines_def isCodeBlock_def startsWith_def nonblank_lines_def
      trim_def is_space_def)

section \<open>Lemmas: token estimates and chunks\<close>






































section \<open>Lemmas: compression\<close>


lemma has_run_mono: "k \<le> k' \<Longrightarrow> has_run Q n k s \<Longrightarrow> has_run Q n k' s"
proof (induction s arbitrary: k k')
  case Nil
  then show ?case by simp
next
  case (Cons c cs)
  show ?case
  proof (cases "n \<le> k'")
    case True
    then show ?thesis by simp
  next
    case False
    with Cons.prems have nk: "\<not> n \<le> k" by simp
    show ?thesis
    proof (cases "Q c")
      case True
      with Cons.prems nk have "has_run Q n (Suc k) cs" by simp
      with Cons.IH [of "Suc k" "Suc k'"] Cons.prems(1) True show ?thesis by simp
    next
      case False
      with Cons.prems nk show ?thesis by simp
    qed
  qed
qed

lemma has_run_suffix: "has_run Q n 0 y \<Longrightarrow> has_run Q n k (m @ y)"
proof (induction m arbitrary: k)
  case Nil
  then show ?case using has_run_mono [of 0 k Q n y] by simp
next
  case (Cons c m)
  then show ?case by simp
qed




lemma has_run_span:
  "0 < n \<Longrightarrow> has_run Q n k s = (n \<le> k + length (takeWhile Q s) \<or> has_run Q n 0 (dropWhile Q s))"
proof (induction s arbitrary: k)
  case Nil
  then show ?case by simp
next
  case (Cons c cs)
  then show ?case by auto
qed

lemma collapse_newlines_head:
  "rest = [] \<or> hd rest \<noteq> NL \<Longrightarrow> takeWhile (\<lambda>x. x = NL) (collapse_newlines rest) = []"
  by (cases rest) auto

lemma newline_run_split:
  "NL # cs = takeWhile (\<lambda>x. x = NL) (NL # cs) @ dropWhile (\<lambda>x. x = NL) cs"
  by simp

lemma dropWhile_head: "dropWhile Q cs = [] \<or> \<not> Q (hd (dropWhile Q cs))"
  using hd_dropWhile [of Q cs] by blast

lemma span_append:
  "list_all Q pre \<Longrightarrow> takeWhile Q xs = [] \<Longrightarrow> takeWhile Q (pre @ xs) = pre \<and> dropWhile Q (pre @ xs) = xs"
proof (induction pre)
  case Nil
  then show ?case by (cases xs) (auto split: if_splits)
next
  case (Cons c pre)
  then show ?case by simp
qed

lemma collapse_newlines_no_run: "\<not> has_run (\<lambda>c. c = NL) 3 0 (collapse_newlines s)"
proof (induction s rule: collapse_newlines.induct)
  case 1
  show ?case by simp
next
  case (2 c cs)
  show ?case
  proof (cases "c = NL")
    case False
    with 2 show ?thesis by simp
  next
    case True
    let ?run = "takeWhile (\<lambda>x. x = NL) (c # cs)"
    let ?rest = "dropWhile (\<lambda>x. x = NL) cs"
    let ?pre = "if 3 \<le> length ?run then [NL, NL] else ?run"
    from True 2 have ih: "\<not> has_run (\<lambda>c. c = NL) 3 0 (collapse_newlines ?rest)" by simp
    have out: "collapse_newlines (c # cs) = ?pre @ collapse_newlines ?rest"
      using True by (simp add: Let_def)
    have pre: "list_all (\<lambda>x. x = NL) ?pre" "length ?pre \<le> 2"
      using True by (auto simp: list_all_iff dest: set_takeWhileD)
    have hd: "takeWhile (\<lambda>x. x = NL) (collapse_newlines ?rest) = []"
      by (rule collapse_newlines_head) (use dropWhile_head [of "\<lambda>x. x = NL" cs] in auto)
    from span_append [OF pre(1) hd]
    have tw: "takeWhile (\<lambda>x. x = NL) (?pre @ collapse_newlines ?rest) = ?pre"
      and dw: "dropWhile (\<lambda>x. x = NL) (?pre @ collapse_newlines ?rest) = collapse_newlines ?rest"
      by blast+
    have "has_run (\<lambda>c. c = NL) 3 0 (?pre @ collapse_newlines ?rest)
        = (3 \<le> 0 + length ?pre \<or> has_run (\<lambda>c. c = NL) 3 0 (collapse_newlines ?rest))"
      using has_run_span [of 3 "\<lambda>c. c = NL" 0 "?pre @ collapse_newlines ?rest"]
      by (simp only: tw dw)
    with pre(2) ih out show ?thesis by (simp del: collapse_newlines.simps)
  qed
qed

lemma blank_not_NL: "is_blank c \<Longrightarrow> c \<noteq> NL"
  by (auto simp: is_blank_def)

lemma has_run_dropWhile: "has_run Q n 0 (dropWhile R cs) \<Longrightarrow> has_run Q n k cs"
  using has_run_suffix [of Q n "dropWhile R cs" k "takeWhile R cs"] by simp

lemma collapse_spaces_newlines:
  "has_run (\<lambda>c. c = NL) 3 k (collapse_spaces s) \<Longrightarrow> has_run (\<lambda>c. c = NL) 3 k s"
proof (induction s arbitrary: k rule: collapse_spaces.induct)
  case 1
  then show ?case by simp
next
  case (2 c cs)
  show ?case
  proof (cases "is_blank c")
    case True
    then have c: "c \<noteq> NL" by (rule blank_not_NL)
    from True "2.prems" have "3 \<le> k \<or> has_run (\<lambda>c. c = NL) 3 0 (collapse_spaces (dropWhile is_blank cs))"
      by simp
    then have "3 \<le> k \<or> has_run (\<lambda>c. c = NL) 3 0 cs"
      using "2.IH"(1) [OF True, of 0] has_run_dropWhile [of "\<lambda>c. c = NL" 3 is_blank cs 0] by blast
    with c show ?thesis by simp
  next
    case False
    with "2.prems" "2.IH"(2) [OF False] show ?thesis by (auto split: if_splits)
  qed
qed













































section \<open>Claims about the loading strategies and the scorer\<close>

text \<open>
  C1. A run of a loading strategy (progressive, focused, breadth-first) on options whose
  \<open>maxTokens\<close> is absent or positive returns a context with \<open>totalTokens\<close> at most the
  budget, which is \<open>maxTokens\<close>, or 8000 when it is absent: a file is admitted only if
  its estimate plus the running total does not exceed the budget. The estimates of the
  returned files sum to at most \<open>totalTokens\<close>, so they stay in the budget as well. The
  bound does not hold for every budget: under \<open>maxTokens = 0\<close> the breadth-first run on
  the small project returns 8 tokens, and under \<open>maxTokens = -1\<close> it returns the empty
  context, whose total 0 is above the budget.
\<close>

theorem budget_respected:
  assumes "0 < spec_budget options"
  shows "(\<forall>ctx. progressive_loadContext e rootPath options = Inr ctx \<longrightarrow>
            int (lc_totalTokens ctx) \<le> spec_budget options
            \<and> file_tokens (lc_files ctx) \<le> lc_totalTokens ctx)
       \<and> (\<forall>ctx calls. focused_loadContext e rootPath options = (Inr ctx, calls) \<longrightarrow>
            int (lc_totalTokens ctx) \<le> spec_budget options
            \<and> file_tokens (lc_files ctx) \<le> lc_totalTokens ctx)
       \<and> (\<forall>ctx. breadth_loadContext e rootPath options = Inr ctx \<longrightarrow>
            int (lc_totalTokens ctx) \<le> spec_budget options
            \<and> file_tokens (lc_files ctx) \<le> lc_totalTokens ctx)"
proof -
  from assms have b: "or_default (o_maxTokens options) 8000 = spec_budget options"
    by (auto simp: or_default_def spec_budget_def split: option.splits)
  with assms have m: "0 \<le> or_default (o_maxTokens options) 8000" by simp
  from progressive_within [OF _ m] focused_within [OF _ m] breadth_within [OF _ m]
  show ?thesis unfolding b by (simp add: in_budget_def)
qed

theorem budget_respected_witness:
  "0 < spec_budget demo_options \<and> 0 < spec_budget demo_focus
   \<and> (\<exists>ctx. progressive_loadContext demo_env ''/p'' demo_options = Inr ctx
         \<and> lc_totalTokens ctx = 10
         \<and> int (lc_totalTokens ctx) \<le> spec_budget demo_options)
   \<and> (\<exists>ctx calls. focused_loadContext demo_env ''/p'' demo_focus = (Inr ctx, calls)
         \<and> lc_totalTokens ctx = 8
         \<and> int (lc_totalTokens ctx) \<le> spec_budget demo_focus
         \<and> file_tokens (lc_files ctx) \<le> lc_totalTokens ctx)
   \<and> (\<exists>ctx. breadth_loadContext demo_env ''/p'' demo_options = Inr ctx
         \<and> lc_totalTokens ctx = 8
         \<and> int (lc_totalTokens ctx) \<le> spec_budget demo_options
         \<and> file_tokens (lc_files ctx) \<le> lc_totalTokens ctx)"
proof -
  have b1: "0 < spec_budget demo_options"
    by (simp add: spec_budget_def demo_options_sel)
  have b2: "0 < spec_budget demo_focus"
    by (simp add: spec_budget_def demo_focus_sel)
  note plain = budget_respected [OF b1, of demo_env "''/p''"]
  note focus = budget_respected [OF b2, of demo_env "''/p''"]
  obtain c1 where c1: "progressive_loadContext demo_env ''/p'' demo_options = Inr c1"
    and t1: "lc_totalTokens c1 = 10"
    using demo_progressive by auto
  obtain c2 calls where c2: "focused_loadContext demo_env ''/p'' demo_focus = (Inr c2, calls)"
    and t2: "lc_totalTokens c2 = 8"
    using demo_focused_run by (cases "focused_loadContext demo_env ''/p'' demo_focus") auto
  obtain c3 where c3: "breadth_loadContext demo_env ''/p'' demo_options = Inr c3"
    and t3: "lc_totalTokens c3 = 8"
    using demo_breadth by auto
  from plain c1 have p1: "int (lc_totalTokens c1) \<le> spec_budget demo_options" by blast
  from focus c2 have p2: "int (lc_totalTokens c2) \<le> spec_budget demo_focus"
    "file_tokens (lc_files c2) \<le> lc_totalTokens c2" by blast+
  from plain c3 have p3: "int (lc_totalTokens c3) \<le> spec_budget demo_options"
    "file_tokens (lc_files c3) \<le> lc_totalTokens c3" by blast+
  from b1 b2 c1 t1 p1 c2 t2 p2 c3 t3 p3 show ?thesis by blast
qed

theorem budget_exceeded_counterexample:
  "spec_budget demo_zero = 0
   \<and> breadth_loadContext demo_env ''/p'' demo_zero =
     Inr \<lparr>lc_files = [(''README.md'', ''# Demo''), (''package.json'', ''{}''),
                      (''src/index.ts'', ''export const x = 1'')],
          lc_metadata = BreadthMeta [(0, 2, 3), (1, 1, 5)],
          lc_totalTokens = 8, lc_strategy = ''breadth-first''\<rparr>
   \<and> \<not> int 8 \<le> spec_budget demo_zero
   \<and> spec_budget demo_negative = - 1
   \<and> breadth_loadContext demo_env ''/p'' demo_negative =
     Inr \<lparr>lc_files = [], lc_metadata = BreadthMeta [], lc_totalTokens = 0,
          lc_strategy = ''breadth-first''\<rparr>
   \<and> \<not> int 0 \<le> spec_budget demo_negative"
proof -
  have "spec_budget demo_zero = 0" "spec_budget demo_negative = - 1"
    by (simp_all add: spec_budget_def demo_zero_def demo_negative_def)
  then show ?thesis
    by (simp add: demo_breadth_zero demo_breadth_negative)
qed

text \<open>
  C2. \<open>totalTokens\<close> is meant to be the sum of the estimates of the files of the returned
  map. The progressive strategy loads \<open>README.md\<close> with the core files and again with the
  documentation: the map holds it once, the total counts it twice. On the small project
  the total is 10 and the estimates of the three files sum to 8.
\<close>

theorem progressive_counts_readme_twice:
  "\<exists>ctx. progressive_loadContext demo_env ''/p'' demo_options = Inr ctx
     \<and> map fst (lc_files ctx) = [''src/index.ts'', ''README.md'', ''package.json'']
     \<and> lc_totalTokens ctx = 10 \<and> file_tokens (lc_files ctx) = 8"
  by (simp add: demo_progressive file_tokens_def demo_tokens)

text \<open>
  C3. \<open>scoreFiles\<close> returns a list when the patterns of the criteria compile on the
  candidate paths. The list it returns is
  sorted by descending score; the files of one score stand in the order of the input
  (a stable sort); and the list holds exactly the scored files that pass the threshold,
  all of them when none is supplied.
\<close>

theorem scoreFiles_sorted_stable_threshold:
  "((\<forall>p \<in> set files. \<forall>g \<in> set (criteria_patterns criteria). scorer_matchesPattern e p g \<noteq> None)
      \<longrightarrow> (\<exists>result. scoreFiles e files criteria = Inr result))
   \<and> (\<forall>result. scoreFiles e files criteria = Inr result \<longrightarrow>
        (\<exists>scored. map (\<lambda>file. scoreFile e file criteria) files = map Inr scored
          \<and> sorted_wrt (\<lambda>a b. fr_score a \<ge> fr_score b) result
          \<and> (\<forall>k. filter (\<lambda>f. fr_score f = k) result
                = filter (\<lambda>f. fr_score f = k) (filter (spec_passes (c_threshold criteria)) scored))
          \<and> set result = set (filter (spec_passes (c_threshold criteria)) scored)
          \<and> length result = length (filter (spec_passes (c_threshold criteria)) scored)))"
  using scoreFiles_total [where e = e and files = files and criteria = criteria]
    scoreFiles_sorted [of e files criteria]
  by blast

theorem scoreFiles_sorted_stable_threshold_witness:
  "(\<exists>result. scoreFiles demo_env demo_paths demo_threshold = Inr result
      \<and> map (\<lambda>f. (fr_path f, fr_score f)) result = [(''src/index.ts'', 100), (''package.json'', 379 / 5)]
      \<and> sorted_wrt (\<lambda>a b. fr_score a \<ge> fr_score b) result
      \<and> (\<exists>scored. map (\<lambda>file. scoreFile demo_env file demo_threshold) demo_paths = map Inr scored
            \<and> set result = set (filter (spec_passes (Some 75)) scored)))"
proof -
  let ?result = "[\<lparr>fr_path = ''src/index.ts'', fr_score = 100,
           fr_factors = calculateRelevance demo_env ''src/index.ts'' None,
           fr_reason = generateReason (calculateRelevance demo_env ''src/index.ts'' None) 525\<rparr>,
          \<lparr>fr_path = ''package.json'', fr_score = 379 / 5,
           fr_factors = calculateRelevance demo_env ''package.json'' None,
           fr_reason = generateReason (calculateRelevance demo_env ''package.json'' None) (379 / 5)\<rparr>]"
  have r: "scoreFiles demo_env demo_paths demo_threshold = Inr ?result"
    by (rule demo_scoreFiles_plain)
  note inst = scoreFiles_sorted_stable_threshold [where e = demo_env and files = demo_paths and criteria = demo_threshold]
  from inst have "\<forall>result. scoreFiles demo_env demo_paths demo_threshold = Inr result \<longrightarrow>
        (\<exists>scored. map (\<lambda>file. scoreFile demo_env file demo_threshold) demo_paths = map Inr scored
          \<and> sorted_wrt (\<lambda>a b. fr_score a \<ge> fr_score b) result
          \<and> (\<forall>k. filter (\<lambda>f. fr_score f = k) result
                = filter (\<lambda>f. fr_score f = k) (filter (spec_passes (c_threshold demo_threshold)) scored))
          \<and> set result = set (filter (spec_passes (c_threshold demo_threshold)) scored)
          \<and> length result = length (filter (spec_passes (c_threshold demo_threshold)) scored))"
    by (rule conjunct2)
  from this [rule_format, OF r] obtain scored where
    m: "map (\<lambda>file. scoreFile demo_env file demo_threshold) demo_paths = map Inr scored"
    and s: "sorted_wrt (\<lambda>a b. fr_score a \<ge> fr_score b) ?result"
    and e: "set ?result = set (filter (spec_passes (c_threshold demo_threshold)) scored)"
    by (elim exE conjE)
  have e': "set ?result = set (filter (spec_passes (Some 75)) scored)"
    using e by (simp only: demo_threshold_sel)
  have p: "map (\<lambda>f. (fr_path f, fr_score f)) ?result = [(''src/index.ts'', 100), (''package.json'', 379 / 5)]"
    by simp
  show ?thesis
    apply (rule exI [of _ ?result])
    apply (intro conjI)
       apply (rule r)
      apply (rule p)
     apply (rule s)
    apply (rule exI [of _ scored])
    apply (intro conjI)
     apply (rule m)
    apply (rule e')
    done
qed

text \<open>
  C4. Every score \<open>scoreFiles\<close> returns lies in the interval from 0 to 100: the scorer
  clamps it. The focused strategy multiplies the clamped score by 1.5 for each include
  pattern the path matches and does not clamp the product. On the small project with
  the include pattern \<open>src\<close> the scorer returns the scores 100, 73 and 71, and the
  focused strategy records 150 for \<open>src/index.ts\<close>: a recorded score outside the
  interval.
\<close>

theorem focused_boost_leaves_range:
  "list_all (\<lambda>s. 0 \<le> s \<and> s \<le> 100) (scores_of (scoreFiles e files criteria))
   \<and> scores_of (scoreFiles demo_env [''src/index.ts'', ''package.json'', ''README.md'']
         (focusedCriteria ''/p'' demo_focus)) = [100, 73, 71]
   \<and> recorded_scores (focused_loadContext demo_env ''/p'' demo_focus)
       = [(''src/index.ts'', 150), (''package.json'', 73), (''README.md'', 71)]
   \<and> \<not> list_all (\<lambda>(p, s). 0 \<le> s \<and> s \<le> 100)
         (recorded_scores (focused_loadContext demo_env ''/p'' demo_focus))"
proof (intro conjI)
  show "list_all (\<lambda>s. 0 \<le> s \<and> s \<le> 100) (scores_of (scoreFiles e files criteria))"
  proof (cases "scoreFiles e files criteria")
    case (Inl err)
    then show ?thesis by (simp add: scores_of_def)
  next
    case (Inr result)
    from scoreFiles_range [OF Inr] Inr show ?thesis
      by (simp add: scores_of_def list_all_iff)
  qed
  show "scores_of (scoreFiles demo_env [''src/index.ts'', ''package.json'', ''README.md'']
         (focusedCriteria ''/p'' demo_focus)) = [100, 73, 71]"
    by (simp add: scores_of_def demo_scoreFiles demo_index_def demo_package_def demo_readme_def)
  show "recorded_scores (focused_loadContext demo_env ''/p'' demo_focus)
       = [(''src/index.ts'', 150), (''package.json'', 73), (''README.md'', 71)]"
    by (simp add: recorded_scores_def demo_focused_run)
  show "\<not> list_all (\<lambda>(p, s). 0 \<le> s \<and> s \<le> 100)
         (recorded_scores (focused_loadContext demo_env ''/p'' demo_focus))"
    by (simp add: recorded_scores_def demo_focused_run)
qed

text \<open>
  C5. Called with neither a query nor a non-empty list of include patterns, the focused
  strategy fails with a configuration error, and the record of its calls to the file
  system and the scorer is empty: nothing was read or listed before the error.
\<close>

theorem focused_requires_focus:
  assumes "no_query (o_query options)" and "no_patterns (o_includePatterns options)"
  shows "focused_loadContext e rootPath options = (Inl ConfigurationError, [])"
  using assms by (simp add: focused_loadContext_def)

theorem focused_requires_focus_witness:
  "no_query (o_query demo_options) \<and> no_patterns (o_includePatterns demo_options)
   \<and> focused_loadContext demo_env ''/p'' demo_options = (Inl ConfigurationError, [])"
proof -
  have q: "no_query (o_query demo_options)" by (simp add: no_query_def demo_options_def)
  have p: "no_patterns (o_includePatterns demo_options)" by (simp add: no_patterns_def demo_options_def)
  from focused_requires_focus [OF q p, of demo_env "''/p''"] q p show ?thesis by simp
qed

section \<open>Claims about the optimizer\<close>

text \<open>
  C6. Selective optimization sorts the sections by descending relevance score and appends
  each section, in that order, only if its token cost fits the remaining budget; a
  section that does not fit is skipped and the next one is tried. The optimized text is
  the one of \<open>spec_selective\<close>, and so is the token total. For the sections with costs
  C:80, A:100, B:250 and scores C:95, A:90, B:40 and the budget 200, the result holds
  exactly C and A, with the total cost 180.
\<close>

theorem selective_greedy_by_score:
  "selectiveOptimization content maxTokens
     = fst (spec_selective maxTokens (map scoreSection (splitIntoSections content)))
   \<and> snd (selectivePack maxTokens scored) = snd (spec_selective maxTokens scored)
   \<and> selectivePack 200
       [\<lparr>sc_content = ''A'', sc_score = 90, sc_tokens = 100\<rparr>,
        \<lparr>sc_content = ''B'', sc_score = 40, sc_tokens = 250\<rparr>,
        \<lparr>sc_content = ''C'', sc_score = 95, sc_tokens = 80\<rparr>] = (''C'' @ [NL, NL] @ ''A'', 180)"
proof (intro conjI)
  have "list_all (\<lambda>s. sc_content s \<noteq> []) (map scoreSection (splitIntoSections content))"
    using sections_nonempty [of content] by (simp add: list_all_iff scoreSection_def)
  then show "selectiveOptimization content maxTokens
     = fst (spec_selective maxTokens (map scoreSection (splitIntoSections content)))"
    unfolding selectiveOptimization_def by (rule selectivePack_spec_content)
  show "snd (selectivePack maxTokens scored) = snd (spec_selective maxTokens scored)"
    by (rule selectivePack_spec_tokens)
  show "selectivePack 200
       [\<lparr>sc_content = ''A'', sc_score = 90, sc_tokens = 100\<rparr>,
        \<lparr>sc_content = ''B'', sc_score = 40, sc_tokens = 250\<rparr>,
        \<lparr>sc_content = ''C'', sc_score = 95, sc_tokens = 80\<rparr>] = (''C'' @ [NL, NL] @ ''A'', 180)"
    by (simp add: selectivePack_def js_sort_def selective_step_def append_piece_def)
qed

text \<open>
  C7. The summarize optimization takes the sections in descending order of importance
  and appends the regular summary of each one while that summary fits the token budget:
  the tag \<open>[<language> code: <name>]\<close> for a code block, else the first three lines that
  are not blank and every section marker after them. What is appended and what must fit
  is this summary, not the full section. At the first section whose summary does not fit
  it appends the much shorter summary if that one fits (the first line that is not
  blank cut to 100 characters, or the tag \<open>[Code block: ...]\<close> with the first line that
  is not a fence cut to 50 characters, each followed by three dots and each one line),
  and stops. The
  section of four lines loses its fourth line under the budget 8000 and becomes
  \<open>a...\<close> under the budget 2.
\<close>

theorem summarize_appends_summaries:
  "summarizeContent content maxTokens = spec_summarize spec_regular spec_short content maxTokens
   \<and> NL \<notin> set (spec_short section)
   \<and> summarizeContent demo_lines 8000 = [CHR ''a'', NL, CHR ''b'', NL, CHR ''c'']
   \<and> summarizeContent demo_lines 2 = ''a...''"
proof (intro conjI)
  show "summarizeContent content maxTokens = spec_summarize spec_regular spec_short content maxTokens"
    by (rule summarizeContent_spec)
  show "NL \<notin> set (spec_short section)"
    by (rule spec_short_one_line)
  show "summarizeContent demo_lines 8000 = [CHR ''a'', NL, CHR ''b'', NL, CHR ''c'']"
    by (simp add: summarizeContent_def demo_lines_sections prioritizeSections_def
      js_sort_def demo_lines_summary demo_lines_tokens append_piece_def)
  show "summarizeContent demo_lines 2 = ''a...''"
    by (simp add: summarizeContent_def demo_lines_sections prioritizeSections_def
      js_sort_def demo_lines_summary demo_lines_tokens append_piece_def)
qed

theorem summarize_full_sections_counterexample:
  "summarizeContent demo_lines 8000 = [CHR ''a'', NL, CHR ''b'', NL, CHR ''c'']
   \<and> spec_summarize id spec_short demo_lines 8000 = demo_lines
   \<and> summarizeContent demo_lines 8000 \<noteq> spec_summarize id spec_short demo_lines 8000"
  by (simp add: summarizeContent_def spec_summarize_def demo_lines_sections prioritizeSections_def
      js_sort_def demo_lines_summary demo_lines_tokens append_piece_def)
    (simp add: demo_lines_def)







text \<open>
  C10. \<open>getTokenInfo\<close> on the empty content: the total is 0 and every percentage of the
  breakdown is \<open>0 / 0 * 100\<close>, that is \<open>NaN\<close>; the division is not guarded.
\<close>

theorem getTokenInfo_empty:
  "ti_totalTokens (getTokenInfo []) = 0
   \<and> ti_breakdown (getTokenInfo []) =
       [(''code'', NaN), (''documentation'', NaN), (''comments'', NaN),
        (''whitespace'', NaN), (''other'', NaN)]
   \<and> list_all (\<lambda>(key, v). \<not> is_number v) (ti_breakdown (getTokenInfo []))"
  by (simp add: getTokenInfo_def estimateTokenCount_def split_ws_def ceil_div_def
      splitIntoSections_def split_step_def push_section_def trim_def startsWith_def
      isSectionMarker_def header_upto_def rule_of_def distributionEntries_def js_div_def)

end
